theory Spec2Isabelle
  imports Complex_Main
begin

section \<open>Floating-point values and exceptions\<close>

text \<open>
  The program (\<open>main.py\<close>) computes on Python and NumPy floats. A float is modelled as a
  real number or one of the three special values of IEEE 754. On finite values the
  arithmetic is the exact real arithmetic (rounding, overflow to infinity and the sign of
  zero are not modelled); on the special values it is the arithmetic of IEEE 754, which is
  what NumPy scalars and arrays do (a division by zero gives an infinity or NaN and a
  warning, not an exception).
\<close>

datatype pyfloat = Fin real | PInf | NInf | NaN

datatype error = TypeError | ValueError | OverflowError | ZeroDivisionError | ParameterError

definition is_nan :: "pyfloat \<Rightarrow> bool" where
  "is_nan x = (case x of NaN \<Rightarrow> True | _ \<Rightarrow> False)"

definition is_finite :: "pyfloat \<Rightarrow> bool" where
  "is_finite x = (case x of Fin _ \<Rightarrow> True | _ \<Rightarrow> False)"

fun fl_neg :: "pyfloat \<Rightarrow> pyfloat" where
  "fl_neg (Fin a) = Fin (- a)"
| "fl_neg PInf = NInf"
| "fl_neg NInf = PInf"
| "fl_neg NaN = NaN"

fun fl_abs :: "pyfloat \<Rightarrow> pyfloat" where
  "fl_abs (Fin a) = Fin \<bar>a\<bar>"
| "fl_abs PInf = PInf"
| "fl_abs NInf = PInf"
| "fl_abs NaN = NaN"

fun fl_add :: "pyfloat \<Rightarrow> pyfloat \<Rightarrow> pyfloat" where
  "fl_add (Fin a) (Fin b) = Fin (a + b)"
| "fl_add NaN _ = NaN"
| "fl_add _ NaN = NaN"
| "fl_add PInf NInf = NaN"
| "fl_add NInf PInf = NaN"
| "fl_add PInf _ = PInf"
| "fl_add _ PInf = PInf"
| "fl_add NInf _ = NInf"
| "fl_add _ NInf = NInf"

definition fl_sub :: "pyfloat \<Rightarrow> pyfloat \<Rightarrow> pyfloat" where
  "fl_sub a b = fl_add a (fl_neg b)"

fun fl_mul :: "pyfloat \<Rightarrow> pyfloat \<Rightarrow> pyfloat" where
  "fl_mul (Fin a) (Fin b) = Fin (a * b)"
| "fl_mul NaN _ = NaN"
| "fl_mul _ NaN = NaN"
| "fl_mul (Fin a) PInf = (if a = 0 then NaN else if 0 < a then PInf else NInf)"
| "fl_mul (Fin a) NInf = (if a = 0 then NaN else if 0 < a then NInf else PInf)"
| "fl_mul PInf (Fin b) = (if b = 0 then NaN else if 0 < b then PInf else NInf)"
| "fl_mul NInf (Fin b) = (if b = 0 then NaN else if 0 < b then NInf else PInf)"
| "fl_mul PInf PInf = PInf"
| "fl_mul PInf NInf = NInf"
| "fl_mul NInf PInf = NInf"
| "fl_mul NInf NInf = PInf"

fun fl_div :: "pyfloat \<Rightarrow> pyfloat \<Rightarrow> pyfloat" where
  "fl_div (Fin a) (Fin b) =
     (if b = 0 then (if a = 0 then NaN else if 0 < a then PInf else NInf) else Fin (a / b))"
| "fl_div NaN _ = NaN"
| "fl_div _ NaN = NaN"
| "fl_div (Fin a) PInf = Fin 0"
| "fl_div (Fin a) NInf = Fin 0"
| "fl_div PInf (Fin b) = (if 0 \<le> b then PInf else NInf)"
| "fl_div NInf (Fin b) = (if 0 \<le> b then NInf else PInf)"
| "fl_div PInf PInf = NaN"
| "fl_div PInf NInf = NaN"
| "fl_div NInf PInf = NaN"
| "fl_div NInf NInf = NaN"

text \<open>Comparisons: every comparison with NaN is false.\<close>

fun fl_lt :: "pyfloat \<Rightarrow> pyfloat \<Rightarrow> bool" where
  "fl_lt (Fin a) (Fin b) = (a < b)"
| "fl_lt NaN _ = False"
| "fl_lt _ NaN = False"
| "fl_lt (Fin a) PInf = True"
| "fl_lt (Fin a) NInf = False"
| "fl_lt PInf _ = False"
| "fl_lt NInf (Fin b) = True"
| "fl_lt NInf PInf = True"
| "fl_lt NInf NInf = False"

definition fl_le :: "pyfloat \<Rightarrow> pyfloat \<Rightarrow> bool" where
  "fl_le a b = (\<not> is_nan a \<and> \<not> is_nan b \<and> (a = b \<or> fl_lt a b))"

text \<open>
  Python's built-in \<open>max(a, b)\<close> and \<open>min(a, b)\<close> keep the first argument unless the second
  compares strictly greater (smaller); a NaN first argument is therefore returned.
\<close>

definition py_max :: "pyfloat \<Rightarrow> pyfloat \<Rightarrow> pyfloat" where
  "py_max a b = (if fl_lt a b then b else a)"

definition py_min :: "pyfloat \<Rightarrow> pyfloat \<Rightarrow> pyfloat" where
  "py_min a b = (if fl_lt b a then b else a)"

section \<open>Duration utility\<close>

text \<open>Python's \<open>a / b\<close> on two ints.\<close>

definition py_truediv :: "int \<Rightarrow> int \<Rightarrow> error + pyfloat" where
  "py_truediv a b =
     (if b = 0 then Inl ZeroDivisionError else Inr (Fin (real_of_int a / real_of_int b)))"

text \<open>
  \<open>get_duration(y, sr)\<close>: \<open>y\<close> is the sample array or \<open>None\<close>, \<open>sr\<close> an int;
  \<open>y.shape[0]\<close> is the number of samples. The body of the \<open>try\<close> comes first, then the
  function with its handler.
\<close>

definition get_duration_try :: "pyfloat list option \<Rightarrow> int \<Rightarrow> error + pyfloat" where
  "get_duration_try y sr =
     (case y of
        None \<Rightarrow> Inr (Fin 0)
      | Some ys \<Rightarrow>
          if sr \<le> 0 then Inr (Fin 0)
          else (let n_samples = int (length ys) in
                case py_truediv n_samples sr of
                  Inl e \<Rightarrow> Inl e
                | Inr duration \<Rightarrow>
                    if is_nan duration \<or> fl_lt duration (Fin 0) then Inr (Fin 0)
                    else Inr duration))"

definition get_duration :: "pyfloat list option \<Rightarrow> int \<Rightarrow> pyfloat" where
  "get_duration y sr = (case get_duration_try y sr of Inl e \<Rightarrow> Fin 0 | Inr d \<Rightarrow> d)"

text \<open>
  The argument of \<open>format_duration\<close> is any Python object; \<open>PyNonNumeric\<close> stands for
  one on which \<open>float(...)\<close> raises.
\<close>

datatype pyvalue = PyNumber pyfloat | PyNonNumeric

definition py_float :: "pyvalue \<Rightarrow> error + pyfloat" where
  "py_float v = (case v of PyNumber x \<Rightarrow> Inr x | PyNonNumeric \<Rightarrow> Inl TypeError)"

text \<open>
  Python 3's \<open>round(x)\<close> on a float: the nearest integer, an exact half going to the even
  neighbour; it raises on infinities and NaN.
\<close>

definition round_half_even :: "real \<Rightarrow> int" where
  "round_half_even x =
     (let f = \<lfloor>x\<rfloor>; d = x - of_int f
      in if d < 1 / 2 then f else if 1 / 2 < d then f + 1 else if even f then f else f + 1)"

definition py_round :: "pyfloat \<Rightarrow> error + int" where
  "py_round x =
     (case x of Fin r \<Rightarrow> Inr (round_half_even r)
      | NaN \<Rightarrow> Inl ValueError
      | _ \<Rightarrow> Inl OverflowError)"

text \<open>The format specification \<open>02d\<close>: decimal digits, zero-padded to width 2.\<close>

definition digit_char :: "nat \<Rightarrow> char" where
  "digit_char d = ''0123456789'' ! d"

fun dec_digits :: "nat \<Rightarrow> string" where
  "dec_digits n =
     (if n < 10 then [digit_char n] else dec_digits (n div 10) @ [digit_char (n mod 10)])"

declare dec_digits.simps [simp del]

definition zfill :: "nat \<Rightarrow> string \<Rightarrow> string" where
  "zfill w s = replicate (w - length s) (CHR ''0'') @ s"

definition py_format_02d :: "int \<Rightarrow> string" where
  "py_format_02d i =
     (if i < 0 then CHR ''-'' # zfill 1 (dec_digits (nat (- i)))
      else zfill 2 (dec_digits (nat i)))"

definition format_duration_try :: "pyvalue \<Rightarrow> error + string" where
  "format_duration_try v =
     (case py_float v of
        Inl e \<Rightarrow> Inl e
      | Inr seconds \<Rightarrow>
          if is_nan seconds \<or> fl_lt seconds (Fin 0) then Inr ''00:00''
          else (case py_round seconds of
                  Inl e \<Rightarrow> Inl e
                | Inr total_seconds \<Rightarrow>
                    (let minutes = total_seconds div 60;
                         remaining_seconds = total_seconds mod 60
                     in Inr (py_format_02d minutes @ '':'' @ py_format_02d remaining_seconds))))"

definition format_duration :: "pyvalue \<Rightarrow> string" where
  "format_duration v = (case format_duration_try v of Inl e \<Rightarrow> ''00:00'' | Inr s \<Rightarrow> s)"

text \<open>
  Reading a formatted duration back, to state what time a string \<open>mm:ss\<close> denotes: the
  digits before the colon are minutes, the digits after it seconds.
\<close>

definition digit_val :: "char \<Rightarrow> nat" where
  "digit_val c = of_char c - 48"

definition parse_nat :: "string \<Rightarrow> nat" where
  "parse_nat s = foldl (\<lambda>acc c. 10 * acc + digit_val c) 0 s"

definition is_digit :: "char \<Rightarrow> bool" where
  "is_digit c = (c \<in> set ''0123456789'')"

definition denoted_seconds :: "string \<Rightarrow> nat" where
  "denoted_seconds s =
     60 * parse_nat (takeWhile (\<lambda>c. c \<noteq> CHR '':'') s)
     + parse_nat (drop 1 (dropWhile (\<lambda>c. c \<noteq> CHR '':'') s))"

section \<open>NumPy and librosa operations used by the estimators\<close>

text \<open>
  These library functions are not part of the repository; each is modelled as its
  documentation describes it, on lists of floats. With exact arithmetic the order of a
  summation is immaterial.
\<close>

definition np_sum :: "pyfloat list \<Rightarrow> pyfloat" where
  "np_sum xs = foldr fl_add xs (Fin 0)"

text \<open>\<open>np.mean\<close>: the mean of an empty slice is \<open>0.0 / 0 = NaN\<close> (a warning, no exception).\<close>

definition np_mean :: "pyfloat list \<Rightarrow> pyfloat" where
  "np_mean xs = fl_div (np_sum xs) (Fin (real (length xs)))"

text \<open>\<open>np.max\<close> propagates NaN and raises on an empty array.\<close>

definition np_maximum :: "pyfloat \<Rightarrow> pyfloat \<Rightarrow> pyfloat" where
  "np_maximum a b = (if is_nan a then a else if is_nan b then b else if fl_lt a b then b else a)"

definition np_max :: "pyfloat list \<Rightarrow> error + pyfloat" where
  "np_max xs = (case xs of [] \<Rightarrow> Inl ValueError | x # rest \<Rightarrow> Inr (foldl np_maximum x rest))"

text \<open>
  \<open>np.argmax\<close>: the index of the first maximum, where a NaN counts as the maximum;
  it raises on an empty array.
\<close>

fun argmax_from :: "nat \<Rightarrow> pyfloat \<Rightarrow> nat \<Rightarrow> pyfloat list \<Rightarrow> nat" where
  "argmax_from best_i best i [] = best_i"
| "argmax_from best_i best i (x # xs) =
     (if \<not> is_nan best \<and> (is_nan x \<or> fl_lt best x)
      then argmax_from i x (Suc i) xs
      else argmax_from best_i best (Suc i) xs)"

definition np_argmax :: "pyfloat list \<Rightarrow> error + nat" where
  "np_argmax xs = (case xs of [] \<Rightarrow> Inl ValueError | x # rest \<Rightarrow> Inr (argmax_from 0 x 1 rest))"

text \<open>\<open>np.roll(a, i)\<close>: element \<open>j\<close> of the result is element \<open>(j - i) mod n\<close> of \<open>a\<close>.\<close>

definition np_roll :: "'a list \<Rightarrow> nat \<Rightarrow> 'a list" where
  "np_roll xs i =
     (let n = length xs
      in if n = 0 then [] else drop (n - i mod n) xs @ take (n - i mod n) xs)"

text \<open>
  \<open>np.correlate(a, v)[0]\<close> in the default mode \<open>valid\<close>: the inner product of \<open>v\<close> with the
  first window of \<open>a\<close>; when \<open>v\<close> is the longer one the arguments are swapped and the
  result reversed, so that entry 0 pairs \<open>a\<close> with the last window of \<open>v\<close>. An empty
  argument raises.
\<close>

definition dot :: "pyfloat list \<Rightarrow> pyfloat list \<Rightarrow> pyfloat" where
  "dot xs ys = np_sum (map (\<lambda>(x, y). fl_mul x y) (zip xs ys))"

definition np_correlate0 :: "pyfloat list \<Rightarrow> pyfloat list \<Rightarrow> error + pyfloat" where
  "np_correlate0 a v =
     (if a = [] \<or> v = [] then Inl ValueError
      else if length v \<le> length a then Inr (dot (take (length v) a) v)
      else Inr (dot (drop (length v - length a) v) a))"

text \<open>
  \<open>librosa.util.normalize(S)\<close> with its defaults (\<open>norm=np.inf\<close>, \<open>axis=0\<close>,
  \<open>threshold=tiny\<close>, \<open>fill=None\<close>) on a vector: it raises \<open>ParameterError\<close> unless every
  entry is finite, divides by the largest magnitude, and leaves the vector as it is when
  that magnitude is below the threshold (the smallest positive normal float).
\<close>

definition tiny :: real where
  "tiny = 1 / 2 ^ 1022"

definition normalize :: "pyfloat list \<Rightarrow> error + pyfloat list" where
  "normalize S =
     (if \<not> list_all is_finite S then Inl ParameterError
      else case np_max (map fl_abs S) of
             Inl e \<Rightarrow> Inl e
           | Inr mx \<Rightarrow>
               (let len = (if fl_lt mx (Fin tiny) then Fin 1 else mx)
                in Inr (map (\<lambda>x. fl_div x len) S)))"

section \<open>Key estimator\<close>

definition key_names :: "string list" where
  "key_names = [''C'', ''C#'', ''D'', ''D#'', ''E'', ''F'', ''F#'', ''G'', ''G#'', ''A'', ''A#'', ''B'']"

definition major_template :: "pyfloat list" where
  "major_template =
     map Fin [1.0, 0.0, 0.3, 0.0, 0.6, 0.4, 0.0, 0.8, 0.0, 0.4, 0.0, 0.2]"

definition minor_template :: "pyfloat list" where
  "minor_template =
     map Fin [1.0, 0.0, 0.3, 0.6, 0.0, 0.4, 0.0, 0.8, 0.4, 0.0, 0.4, 0.0]"

text \<open>
  The loop \<open>for i in range(12)\<close> that fills \<open>major_corr\<close> and \<open>minor_corr\<close>; the state is
  the pair of arrays, the second argument the indices still to visit.
\<close>

fun corr_loop ::
  "pyfloat list \<Rightarrow> nat list \<Rightarrow> pyfloat list \<times> pyfloat list \<Rightarrow> error + pyfloat list \<times> pyfloat list"
where
  "corr_loop chroma_norm [] st = Inr st"
| "corr_loop chroma_norm (i # rest) (major_corr, minor_corr) =
     (let major_roll = np_roll major_template i;
          minor_roll = np_roll minor_template i
      in case np_correlate0 chroma_norm major_roll of
           Inl e \<Rightarrow> Inl e
         | Inr a \<Rightarrow>
             (case np_correlate0 chroma_norm minor_roll of
                Inl e \<Rightarrow> Inl e
              | Inr b \<Rightarrow> corr_loop chroma_norm rest (major_corr[i := a], minor_corr[i := b])))"

text \<open>
  The part of \<open>estimate_key\<close> after the correlations: best and second-best match of each
  mode, the key, and the confidence with its final clamp
  \<open>float(min(max(confidence, 0.0), 100.0))\<close>. The indices come from \<open>np.argmax\<close> of arrays of
  length 12, so the reads of \<open>key_names\<close> and of the arrays are in range.
\<close>

definition key_decide :: "pyfloat list \<Rightarrow> pyfloat list \<Rightarrow> error + string \<times> pyfloat" where
  "key_decide major_corr minor_corr =
     (case np_argmax major_corr of
        Inl e \<Rightarrow> Inl e
      | Inr major_max_idx \<Rightarrow>
     (case np_argmax minor_corr of
        Inl e \<Rightarrow> Inl e
      | Inr minor_max_idx \<Rightarrow>
     (let major_max_val = major_corr ! major_max_idx;
          minor_max_val = minor_corr ! minor_max_idx
      in case np_max (major_corr[major_max_idx := NInf]) of
           Inl e \<Rightarrow> Inl e
         | Inr second_major_val \<Rightarrow>
     (case np_max (minor_corr[minor_max_idx := NInf]) of
        Inl e \<Rightarrow> Inl e
      | Inr second_minor_val \<Rightarrow>
     (let (key, confidence) =
            (if fl_le minor_max_val major_max_val then
               (let abs_conf = fl_div (fl_add major_max_val (Fin 1)) (Fin 2);
                    rel_conf = fl_div (fl_sub major_max_val second_major_val)
                                      (fl_add major_max_val (Fin 0.000001));
                    mode_conf = fl_div (fl_sub major_max_val minor_max_val)
                                       (fl_add (py_max major_max_val minor_max_val) (Fin 0.000001))
                in (key_names ! major_max_idx,
                    fl_mul (fl_add (fl_add (fl_mul abs_conf (Fin 0.4)) (fl_mul rel_conf (Fin 0.4)))
                                   (fl_mul mode_conf (Fin 0.2)))
                           (Fin 100)))
             else
               (let abs_conf = fl_div (fl_add minor_max_val (Fin 1)) (Fin 2);
                    rel_conf = fl_div (fl_sub minor_max_val second_minor_val)
                                      (fl_add minor_max_val (Fin 0.000001));
                    mode_conf = fl_div (fl_sub minor_max_val major_max_val)
                                       (fl_add (py_max minor_max_val major_max_val) (Fin 0.000001))
                in (key_names ! minor_max_idx @ ''m'',
                    fl_mul (fl_add (fl_add (fl_mul abs_conf (Fin 0.4)) (fl_mul rel_conf (Fin 0.4)))
                                   (fl_mul mode_conf (Fin 0.2)))
                           (Fin 100))))
      in Inr (key, py_min (py_max confidence (Fin 0)) (Fin 100)))))))"

text \<open>
  \<open>estimate_key(y, sr)\<close>. The chromagram is computed by
  \<open>librosa.feature.chroma_cqt(y=y, sr=sr, bins_per_octave=36)\<close> inside the \<open>try\<close>; the model
  takes the outcome of that call, an exception or a matrix given as its list of rows (one
  row per pitch class). \<open>np.mean(chroma, axis=1)\<close> is the mean of each row.
\<close>

definition estimate_key_try :: "error + pyfloat list list \<Rightarrow> error + string \<times> pyfloat" where
  "estimate_key_try chroma_cqt =
     (case chroma_cqt of
        Inl e \<Rightarrow> Inl e
      | Inr chroma \<Rightarrow>
          (let chroma_avg = map np_mean chroma
           in case normalize chroma_avg of
                Inl e \<Rightarrow> Inl e
              | Inr chroma_norm \<Rightarrow>
                  (case corr_loop chroma_norm [0..<12] (replicate 12 (Fin 0), replicate 12 (Fin 0)) of
                     Inl e \<Rightarrow> Inl e
                   | Inr (major_corr, minor_corr) \<Rightarrow> key_decide major_corr minor_corr)))"

definition estimate_key :: "error + pyfloat list list \<Rightarrow> string \<times> pyfloat" where
  "estimate_key chroma_cqt =
     (case estimate_key_try chroma_cqt of Inl e \<Rightarrow> (''Unknown'', Fin 0) | Inr r \<Rightarrow> r)"

text \<open>The labels of the 24 keys: a pitch-class name, or one followed by \<open>m\<close>.\<close>

definition key_labels :: "string set" where
  "key_labels = set key_names \<union> (\<lambda>k. k @ ''m'') ` set key_names"

text \<open>
  Two properties of a chromagram entry: a finite non-negative energy (the invariant of a
  chromagram), and the weaker one of not being a negative number (NaN and the infinities
  included).
\<close>

definition nonneg_finite :: "pyfloat \<Rightarrow> bool" where
  "nonneg_finite x = (case x of Fin r \<Rightarrow> 0 \<le> r | _ \<Rightarrow> False)"

definition not_negative :: "pyfloat \<Rightarrow> bool" where
  "not_negative x = (case x of Fin r \<Rightarrow> 0 \<le> r | _ \<Rightarrow> True)"

section \<open>Loudness estimator\<close>

text \<open>\<open>np.sqrt\<close> and \<open>np.log10\<close> on a scalar (a warning, no exception, outside the domain).\<close>

fun fl_sqrt :: "pyfloat \<Rightarrow> pyfloat" where
  "fl_sqrt (Fin a) = (if a < 0 then NaN else Fin (sqrt a))"
| "fl_sqrt PInf = PInf"
| "fl_sqrt NInf = NaN"
| "fl_sqrt NaN = NaN"

fun fl_log10 :: "pyfloat \<Rightarrow> pyfloat" where
  "fl_log10 (Fin a) = (if a < 0 then NaN else if a = 0 then NInf else Fin (log 10 a))"
| "fl_log10 PInf = PInf"
| "fl_log10 NInf = NaN"
| "fl_log10 NaN = NaN"

text \<open>Python's \<open>int(x)\<close> on a finite float truncates towards zero.\<close>

definition py_int :: "real \<Rightarrow> int" where
  "py_int r = (if 0 \<le> r then \<lfloor>r\<rfloor> else \<lceil>r\<rceil>)"

definition block_length :: "int \<Rightarrow> int" where
  "block_length sr = py_int (0.4 * real_of_int sr)"

definition hop_length :: "int \<Rightarrow> int" where
  "hop_length sr = block_length sr div 2"

text \<open>
  \<open>np.sqrt(np.mean(y**2))\<close> of one block (or of the whole signal), and the conversion
  \<open>20 * np.log10(rms + 1e-8)\<close> to dB.
\<close>

definition rms_of :: "pyfloat list \<Rightarrow> pyfloat" where
  "rms_of y = fl_sqrt (np_mean (map (\<lambda>x. fl_mul x x) y))"

definition db_of :: "pyfloat \<Rightarrow> pyfloat" where
  "db_of rms = fl_mul (Fin 20) (fl_log10 (fl_add rms (Fin 0.00000001)))"

text \<open>
  \<open>librosa.util.frame(x, frame_length, hop_length)\<close> on a vector: it raises when the
  signal is shorter than a frame or the hop is below 1; frame \<open>t\<close> holds the
  \<open>frame_length\<close> samples from \<open>t * hop_length\<close> on, for
  \<open>t < 1 + (len(x) - frame_length) // hop_length\<close>. (In \<open>calculate_lufs\<close> a hop of at least
  1 means a frame length of at least 2.)
\<close>

definition frame :: "pyfloat list \<Rightarrow> int \<Rightarrow> int \<Rightarrow> error + pyfloat list list" where
  "frame x frame_len hop =
     (if int (length x) < frame_len then Inl ParameterError
      else if hop < 1 then Inl ParameterError
      else Inr (map (\<lambda>t. take (nat frame_len) (drop (t * nat hop) x))
                    [0..<nat (1 + (int (length x) - frame_len) div hop)]))"

text \<open>
  The gating of \<open>calculate_lufs\<close> on the per-block dB values: \<open>valid_db\<close> is
  \<open>block_db[block_db > -70]\<close>, \<open>final_db\<close> is \<open>block_db[block_db > relative_threshold]\<close>, and
  the result is clamped by \<open>float(max(min(lufs, 0.0), -70.0))\<close>.
\<close>

definition valid_db :: "pyfloat list \<Rightarrow> pyfloat list" where
  "valid_db block_db = filter (\<lambda>d. fl_lt (Fin (- 70)) d) block_db"

definition relative_threshold :: "pyfloat list \<Rightarrow> pyfloat" where
  "relative_threshold block_db = fl_sub (np_mean (valid_db block_db)) (Fin 10)"

definition final_db :: "pyfloat list \<Rightarrow> pyfloat list" where
  "final_db block_db = filter (\<lambda>d. fl_lt (relative_threshold block_db) d) block_db"

definition gated_loudness :: "pyfloat list \<Rightarrow> pyfloat" where
  "gated_loudness block_db =
     (if valid_db block_db = [] then Fin (- 70)
      else if final_db block_db = [] then Fin (- 70)
      else (let lufs = fl_sub (np_mean (final_db block_db)) (Fin 10)
            in py_max (py_min lufs (Fin 0)) (Fin (- 70))))"

definition calculate_lufs_try :: "pyfloat list \<Rightarrow> int \<Rightarrow> error + pyfloat" where
  "calculate_lufs_try y sr =
     (if length y = 0 then Inr (Fin (- 70))
      else if int (length y) < block_length sr then
        (let rms = rms_of y;
             loudness = db_of rms
         in Inr (py_max (py_min (fl_sub loudness (Fin 10)) (Fin 0)) (Fin (- 70))))
      else (case frame y (block_length sr) (hop_length sr) of
              Inl e \<Rightarrow> Inl e
            | Inr blocks \<Rightarrow>
                (let block_rms = map rms_of blocks;
                     block_db = map db_of block_rms
                 in Inr (gated_loudness block_db))))"

definition calculate_lufs :: "pyfloat list \<Rightarrow> int \<Rightarrow> pyfloat" where
  "calculate_lufs y sr = (case calculate_lufs_try y sr of Inl e \<Rightarrow> Fin (- 70) | Inr v \<Rightarrow> v)"

text \<open>
  The loudness algorithm as the specification words it, to compare the code with. A
  clamped value lies in the range: a value above the range becomes its upper end, a value
  inside it stays, and every other value, also one that is not a number, becomes the lower
  end (the floor that the error policy of the specification gives to NaN results). The
  whole-signal fallback is the clamped dB value of the RMS of all samples minus 10; in the
  framed path the blocks that pass the absolute gate (\<open>dB > -70\<close>) are the survivors, the
  relative threshold is their mean minus 10, and the result is the clamped mean, minus 10,
  of the survivors that also pass the relative gate (\<open>-70.0\<close> when no block survives a
  gate).
\<close>

definition clamp :: "pyfloat \<Rightarrow> pyfloat \<Rightarrow> pyfloat \<Rightarrow> pyfloat" where
  "clamp lo hi x = (if fl_lt hi x then hi else if fl_lt lo x then x else lo)"

definition spec_whole_signal_loudness :: "pyfloat list \<Rightarrow> pyfloat" where
  "spec_whole_signal_loudness y =
     (let rms = fl_sqrt (fl_div (np_sum (map (\<lambda>x. fl_mul x x) y)) (Fin (real (length y))))
      in clamp (Fin (- 70)) (Fin 0)
           (fl_sub (fl_mul (Fin 20) (fl_log10 (fl_add rms (Fin 0.00000001)))) (Fin 10)))"


section \<open>Properties of the duration utility\<close>

subsection \<open>Decimal rendering and rounding\<close>

lemma digit_char_is_digit: "d < 10 \<Longrightarrow> is_digit (digit_char d)"
proof -
  assume "d < 10"
  then have "d \<in> {0,1,2,3,4,5,6,7,8,9}" by auto
  then show ?thesis by (auto simp: is_digit_def digit_char_def)
qed

lemma digit_val_digit_char: "d < 10 \<Longrightarrow> digit_val (digit_char d) = d"
proof -
  assume "d < 10"
  then have "d \<in> {0,1,2,3,4,5,6,7,8,9}" by auto
  then show ?thesis by (auto simp: digit_val_def digit_char_def)
qed

lemma dec_digits_nonempty: "dec_digits n \<noteq> []"
  by (subst dec_digits.simps) simp

lemma dec_digits_all_digits: "\<forall>c \<in> set (dec_digits n). is_digit c"
proof (induction n rule: dec_digits.induct)
  case (1 n)
  show ?case
  proof (cases "n < 10")
    case True
    then show ?thesis by (subst dec_digits.simps) (simp add: digit_char_is_digit)
  next
    case False
    with 1 show ?thesis by (subst dec_digits.simps) (simp add: digit_char_is_digit)
  qed
qed

lemma parse_nat_snoc: "parse_nat (s @ [c]) = 10 * parse_nat s + digit_val c"
  by (simp add: parse_nat_def)

lemma parse_nat_dec_digits: "parse_nat (dec_digits n) = n"
proof (induction n rule: dec_digits.induct)
  case (1 n)
  show ?case
  proof (cases "n < 10")
    case True
    then show ?thesis
      by (subst dec_digits.simps) (simp add: parse_nat_def digit_val_digit_char)
  next
    case False
    with 1 show ?thesis
      by (subst dec_digits.simps) (simp add: parse_nat_snoc digit_val_digit_char)
  qed
qed

lemma dec_digits_length_small: "n < 100 \<Longrightarrow> length (dec_digits n) \<le> 2"
  by (subst dec_digits.simps, subst dec_digits.simps) auto

lemma parse_nat_zeros: "parse_nat (replicate k (CHR ''0'') @ s) = parse_nat s"
proof -
  have "foldl (\<lambda>acc c. 10 * acc + digit_val c) 0 (replicate k (CHR ''0'')) = 0"
    by (induction k) (simp_all add: digit_val_def)
  then show ?thesis by (simp add: parse_nat_def)
qed

lemma parse_nat_zfill: "parse_nat (zfill w s) = parse_nat s"
  by (simp add: zfill_def parse_nat_zeros)

lemma length_zfill: "length (zfill w s) = max w (length s)"
  by (simp add: zfill_def)

lemma is_digit_zero: "is_digit (CHR ''0'')"
  by (simp add: is_digit_def)

lemma zfill_all_digits: "\<forall>c\<in>set s. is_digit c \<Longrightarrow> \<forall>c\<in>set (zfill w s). is_digit c"
  by (auto simp: zfill_def is_digit_zero)

lemma format_02d_parse: "0 \<le> i \<Longrightarrow> parse_nat (py_format_02d i) = nat i"
  by (simp add: py_format_02d_def parse_nat_zfill parse_nat_dec_digits)

lemma format_02d_digits: "0 \<le> i \<Longrightarrow> \<forall>c\<in>set (py_format_02d i). is_digit c"
  using zfill_all_digits[OF dec_digits_all_digits] by (simp add: py_format_02d_def)

lemma format_02d_length_ge: "0 \<le> i \<Longrightarrow> 2 \<le> length (py_format_02d i)"
  by (simp add: py_format_02d_def length_zfill)

lemma format_02d_length_eq: "0 \<le> i \<Longrightarrow> i < 100 \<Longrightarrow> length (py_format_02d i) = 2"
  using dec_digits_length_small[of "nat i"]
  by (simp add: py_format_02d_def length_zfill)

lemma digit_not_colon: "is_digit c \<Longrightarrow> c \<noteq> CHR '':''"
  by (auto simp: is_digit_def)

lemma takeWhile_colon:
  "\<forall>c\<in>set a. is_digit c \<Longrightarrow> takeWhile (\<lambda>c. c \<noteq> CHR '':'') (a @ CHR '':'' # b) = a"
  by (induction a) (simp_all add: digit_not_colon)

lemma dropWhile_colon:
  "\<forall>c\<in>set a. is_digit c \<Longrightarrow> dropWhile (\<lambda>c. c \<noteq> CHR '':'') (a @ CHR '':'' # b) = CHR '':'' # b"
  by (induction a) (simp_all add: digit_not_colon)

lemma denoted_seconds_render:
  assumes "\<forall>c\<in>set a. is_digit c"
  shows "denoted_seconds (a @ CHR '':'' # b) = 60 * parse_nat a + parse_nat b"
  using assms by (simp add: denoted_seconds_def takeWhile_colon dropWhile_colon)

lemma round_half_even_near: "\<bar>real_of_int (round_half_even x) - x\<bar> \<le> 1 / 2"
  unfolding round_half_even_def Let_def by (auto; linarith)

lemma round_half_even_nonneg: "0 \<le> x \<Longrightarrow> 0 \<le> round_half_even x"
  unfolding round_half_even_def Let_def by (auto; linarith)

lemma round_half_even_mono: "x \<le> y \<Longrightarrow> round_half_even x \<le> round_half_even y"
proof (cases "x = y")
  case True
  then show ?thesis by simp
next
  case False
  assume "x \<le> y"
  with False have lt: "x < y" by simp
  have "real_of_int (round_half_even x) \<le> x + 1 / 2"
    using round_half_even_near[of x] by linarith
  moreover have "y - 1 / 2 \<le> real_of_int (round_half_even y)"
    using round_half_even_near[of y] by linarith
  ultimately have "real_of_int (round_half_even x) < real_of_int (round_half_even y) + 1"
    using lt by linarith
  then have "round_half_even x < round_half_even y + 1"
    by linarith
  then show ?thesis by simp
qed

lemma floor_plus_half: "\<lfloor>real k + 1 / 2\<rfloor> = int k"
  by linarith

lemma round_half_even_half:
  "round_half_even (real k + 1 / 2) = (if even k then int k else int k + 1)"
  unfolding round_half_even_def Let_def floor_plus_half by simp

lemma round_half_even_of_nat: "round_half_even (real n) = int n"
  unfolding round_half_even_def Let_def by simp

lemma format_duration_finite:
  "0 \<le> s \<Longrightarrow> format_duration (PyNumber (Fin s)) =
     py_format_02d (round_half_even s div 60) @ '':'' @ py_format_02d (round_half_even s mod 60)"
  by (simp add: format_duration_def format_duration_try_def py_float_def is_nan_def py_round_def Let_def)

lemma denoted_format_duration:
  assumes "0 \<le> s"
  shows "denoted_seconds (format_duration (PyNumber (Fin s))) = nat (round_half_even s)"
proof -
  let ?T = "round_half_even s"
  have T: "0 \<le> ?T" using assms by (rule round_half_even_nonneg)
  then have m: "0 \<le> ?T div 60" and r: "0 \<le> ?T mod 60" by simp_all
  have "denoted_seconds (format_duration (PyNumber (Fin s)))
        = 60 * nat (?T div 60) + nat (?T mod 60)"
    using assms m r
    by (simp add: format_duration_finite denoted_seconds_render format_02d_digits format_02d_parse)
  also have "\<dots> = nat ?T" using T by (simp add: nat_div_distrib nat_mod_distrib)
  finally show ?thesis .
qed

subsection \<open>Duration and its format\<close>

lemma get_duration_pos:
  "0 < sr \<Longrightarrow> get_duration (Some ys) sr = Fin (real (length ys) / real_of_int sr)"
  by (simp add: get_duration_def get_duration_try_def py_truediv_def is_nan_def Let_def
      divide_less_0_iff)

lemma get_duration_nonpos: "sr \<le> 0 \<Longrightarrow> get_duration y sr = Fin 0"
  by (simp add: get_duration_def get_duration_try_def split: option.splits)

lemma get_duration_valid: "\<exists>d. get_duration y sr = Fin d \<and> 0 \<le> d"
proof (cases y)
  case None
  then show ?thesis by (simp add: get_duration_def get_duration_try_def)
next
  case (Some ys)
  show ?thesis
  proof (cases "0 < sr")
    case True
    then show ?thesis using Some by (simp add: get_duration_pos)
  next
    case False
    then show ?thesis by (simp add: get_duration_nonpos)
  qed
qed

text \<open>
  Claim C7. For a buffer of \<open>n\<close> samples and a sample rate \<open>sr > 0\<close>, \<open>get_duration\<close>
  returns \<open>n / sr\<close>; it returns 0.0 when \<open>sr \<le> 0\<close> or when there is no sample array; its
  result is never NaN and never negative; and 441000 samples at 44100 Hz last 10.0 seconds.
\<close>

theorem get_duration_contract:
  "(0 < sr \<longrightarrow> get_duration (Some ys) sr = Fin (real (length ys) / real_of_int sr))
   \<and> (sr \<le> 0 \<longrightarrow> get_duration (Some ys) sr = Fin 0)
   \<and> get_duration None sr = Fin 0
   \<and> (\<exists>d. get_duration y sr = Fin d \<and> 0 \<le> d)
   \<and> get_duration (Some (replicate 441000 x)) 44100 = Fin 10"
proof -
  have "get_duration None sr = Fin 0"
    by (simp add: get_duration_def get_duration_try_def)
  moreover have "get_duration (Some (replicate 441000 x)) 44100 = Fin 10"
    by (simp add: get_duration_pos)
  ultimately show ?thesis
    using get_duration_pos get_duration_nonpos get_duration_valid by blast
qed

theorem get_duration_contract_witness:
  "get_duration (Some [Fin 1, Fin 0, Fin (-1)]) 2 = Fin (3 / 2)
   \<and> get_duration (Some [Fin 1, Fin 0, Fin (-1)]) (-2) = Fin 0"
  using get_duration_contract [of 2 "[Fin 1, Fin 0, Fin (-1)]"]
        get_duration_contract [of "-2" "[Fin 1, Fin 0, Fin (-1)]"]
  by simp

lemma format_duration_invalid:
  "format_duration (PyNumber NaN) = ''00:00''"
  "format_duration (PyNumber NInf) = ''00:00''"
  "format_duration (PyNumber PInf) = ''00:00''"
  "format_duration PyNonNumeric = ''00:00''"
  "s < 0 \<Longrightarrow> format_duration (PyNumber (Fin s)) = ''00:00''"
  by (simp_all add: format_duration_def format_duration_try_def py_float_def is_nan_def py_round_def)

lemma format_duration_shape:
  assumes "0 \<le> s"
  shows "\<exists>mm ss. format_duration (PyNumber (Fin s)) = mm @ '':'' @ ss
           \<and> 2 \<le> length mm \<and> length ss = 2
           \<and> (\<forall>c\<in>set mm \<union> set ss. is_digit c)
           \<and> parse_nat ss < 60
           \<and> \<bar>real (60 * parse_nat mm + parse_nat ss) - s\<bar> \<le> 1 / 2"
proof -
  let ?T = "round_half_even s"
  let ?mm = "py_format_02d (?T div 60)" and ?ss = "py_format_02d (?T mod 60)"
  have T: "0 \<le> ?T" using assms by (rule round_half_even_nonneg)
  then have m: "0 \<le> ?T div 60" and r: "0 \<le> ?T mod 60" and r': "?T mod 60 < 100"
    by simp_all
  have eq: "format_duration (PyNumber (Fin s)) = ?mm @ '':'' @ ?ss"
    using assms by (rule format_duration_finite)
  have pm: "parse_nat ?mm = nat (?T div 60)" and ps: "parse_nat ?ss = nat (?T mod 60)"
    using m r by (simp_all add: format_02d_parse)
  have "60 * parse_nat ?mm + parse_nat ?ss = nat ?T"
    unfolding pm ps using T by (simp add: nat_div_distrib nat_mod_distrib)
  then have "real (60 * parse_nat ?mm + parse_nat ?ss) = real_of_int ?T"
    using T by simp
  then have near: "\<bar>real (60 * parse_nat ?mm + parse_nat ?ss) - s\<bar> \<le> 1 / 2"
    using round_half_even_near[of s] by simp
  have lt: "parse_nat ?ss < 60" unfolding ps by simp
  have dig: "\<forall>c\<in>set ?mm \<union> set ?ss. is_digit c"
    using format_02d_digits[OF m] format_02d_digits[OF r] by blast
  show ?thesis
    using eq format_02d_length_ge[OF m] format_02d_length_eq[OF r r'] dig lt near
    by blast
qed

text \<open>
  Claim C8. For a finite \<open>s \<ge> 0\<close>, \<open>format_duration\<close> returns \<open>mm:ss\<close> where both
  fields are decimal digits, the minutes field has at least two digits, the seconds field
  has exactly two and is below 60, and the time \<open>60 * mm + ss\<close> is a whole number of seconds
  nearest to \<open>s\<close> (so the minutes are not reduced modulo 60). For NaN, a negative value or
  a non-numeric argument the result is \<open>00:00\<close>. In particular 10.0 gives \<open>00:10\<close> and
  125.6 gives \<open>02:06\<close>.
\<close>

theorem format_duration_contract:
  "(0 \<le> s \<longrightarrow>
      (\<exists>mm ss. format_duration (PyNumber (Fin s)) = mm @ '':'' @ ss
           \<and> 2 \<le> length mm \<and> length ss = 2
           \<and> (\<forall>c\<in>set mm \<union> set ss. is_digit c)
           \<and> parse_nat ss < 60
           \<and> \<bar>real (60 * parse_nat mm + parse_nat ss) - s\<bar> \<le> 1 / 2))
   \<and> (s < 0 \<longrightarrow> format_duration (PyNumber (Fin s)) = ''00:00'')
   \<and> format_duration (PyNumber NaN) = ''00:00''
   \<and> format_duration (PyNumber NInf) = ''00:00''
   \<and> format_duration PyNonNumeric = ''00:00''
   \<and> format_duration (PyNumber (Fin 10)) = ''00:10''
   \<and> format_duration (PyNumber (Fin 125.6)) = ''02:06''"
proof -
  have "format_duration (PyNumber (Fin 10)) = ''00:10''" by code_simp
  moreover have "format_duration (PyNumber (Fin 125.6)) = ''02:06''" by code_simp
  ultimately show ?thesis
    using format_duration_shape[of s] format_duration_invalid by blast
qed

theorem format_duration_contract_witness:
  "(\<exists>mm ss. format_duration (PyNumber (Fin 6000.4)) = mm @ '':'' @ ss
           \<and> 2 \<le> length mm \<and> length ss = 2
           \<and> (\<forall>c\<in>set mm \<union> set ss. is_digit c)
           \<and> parse_nat ss < 60
           \<and> \<bar>real (60 * parse_nat mm + parse_nat ss) - 6000.4\<bar> \<le> 1 / 2)
   \<and> format_duration (PyNumber (Fin (- 3))) = ''00:00''"
  using format_duration_contract [of "6000.4"] format_duration_contract [of "- 3"]
  by simp

lemma format_duration_minutes_unbounded: "format_duration (PyNumber (Fin 6000.4)) = ''100:00''"
  by code_simp

text \<open>
  Claim C9. For a fixed sample rate \<open>sr > 0\<close>, the time denoted by
  \<open>format_duration (get_duration y sr)\<close> does not decrease when the number of samples grows.
\<close>

theorem duration_format_monotone:
  assumes "0 < sr" and "length y1 \<le> length y2"
  shows "denoted_seconds (format_duration (PyNumber (get_duration (Some y1) sr)))
         \<le> denoted_seconds (format_duration (PyNumber (get_duration (Some y2) sr)))"
proof -
  let ?d1 = "real (length y1) / real_of_int sr" and ?d2 = "real (length y2) / real_of_int sr"
  have nn: "0 \<le> ?d1" "0 \<le> ?d2" using assms(1) by simp_all
  have le: "?d1 \<le> ?d2" using assms by (simp add: divide_right_mono)
  have "nat (round_half_even ?d1) \<le> nat (round_half_even ?d2)"
    using round_half_even_mono[OF le] by simp
  then show ?thesis
    using assms(1) nn by (simp add: get_duration_pos denoted_format_duration)
qed

theorem duration_format_monotone_witness:
  "denoted_seconds (format_duration (PyNumber (get_duration (Some [Fin 0, Fin 0, Fin 0]) 2)))
   \<le> denoted_seconds (format_duration (PyNumber (get_duration (Some [Fin 0, Fin 0, Fin 0, Fin 0, Fin 0]) 2)))"
  using duration_format_monotone [of 2 "[Fin 0, Fin 0, Fin 0]" "[Fin 0, Fin 0, Fin 0, Fin 0, Fin 0]"]
  by simp

lemma format_duration_of_nat:
  "format_duration (PyNumber (Fin (real n)))
     = py_format_02d (int n div 60) @ '':'' @ py_format_02d (int n mod 60)"
  by (simp add: format_duration_finite round_half_even_of_nat)

text \<open>
  Claim C10. An exact half second is rounded to the even neighbour: \<open>k + 0.5\<close> is
  rendered as \<open>k\<close> seconds when \<open>k\<close> is even and as \<open>k + 1\<close> seconds when \<open>k\<close> is odd;
  10.5 gives \<open>00:10\<close> and 11.5 gives \<open>00:12\<close>.
\<close>

theorem format_duration_half_even:
  "format_duration (PyNumber (Fin (real k + 1 / 2)))
     = format_duration (PyNumber (Fin (real (if even k then k else k + 1))))
   \<and> denoted_seconds (format_duration (PyNumber (Fin (real k + 1 / 2))))
       = (if even k then k else k + 1)
   \<and> format_duration (PyNumber (Fin 10.5)) = ''00:10''
   \<and> format_duration (PyNumber (Fin 11.5)) = ''00:12''"
proof -
  have nn: "0 \<le> real k + 1 / 2" by simp
  have 1: "format_duration (PyNumber (Fin (real k + 1 / 2)))
     = format_duration (PyNumber (Fin (real (if even k then k else k + 1))))"
    unfolding format_duration_finite[OF nn] round_half_even_half format_duration_of_nat
    by (simp add: add.commute)
  have 2: "denoted_seconds (format_duration (PyNumber (Fin (real k + 1 / 2))))
       = (if even k then k else k + 1)"
    unfolding denoted_format_duration[OF nn] round_half_even_half by (simp add: nat_add_distrib)
  have 3: "format_duration (PyNumber (Fin 10.5)) = ''00:10''" by code_simp
  have 4: "format_duration (PyNumber (Fin 11.5)) = ''00:12''" by code_simp
  show ?thesis using 1 2 3 4 by blast
qed

theorem format_duration_half_even_witness:
  "denoted_seconds (format_duration (PyNumber (Fin (real (4::nat) + 1 / 2)))) = 4
   \<and> denoted_seconds (format_duration (PyNumber (Fin (real (7::nat) + 1 / 2)))) = 8"
  using conjunct1 [OF conjunct2 [OF format_duration_half_even [of 4]]]
        conjunct1 [OF conjunct2 [OF format_duration_half_even [of 7]]]
  by simp

section \<open>Properties of the key estimator\<close>

subsection \<open>Sums and means\<close>

lemma fl_add_finite_iff: "is_finite (fl_add a b) \<longleftrightarrow> is_finite a \<and> is_finite b"
  by (cases a; cases b) (simp_all add: is_finite_def)

lemma np_sum_finite_iff: "is_finite (np_sum xs) \<longleftrightarrow> list_all is_finite xs"
proof (induction xs)
  case Nil
  show ?case by (simp add: np_sum_def is_finite_def)
next
  case (Cons x xs)
  then show ?case by (simp add: np_sum_def fl_add_finite_iff)
qed

lemma fl_div_not_finite: "\<not> is_finite a \<Longrightarrow> \<not> is_finite (fl_div a (Fin n))"
  by (cases a) (simp_all add: is_finite_def)

lemma np_mean_not_finite:
  assumes "\<not> list_all is_finite row"
  shows "\<not> is_finite (np_mean row)"
  unfolding np_mean_def using assms by (intro fl_div_not_finite) (simp add: np_sum_finite_iff)

lemma np_mean_Nil: "np_mean [] = NaN"
  by (simp add: np_mean_def np_sum_def)

lemma fl_add_nonneg: "nonneg_finite a \<Longrightarrow> nonneg_finite b \<Longrightarrow> nonneg_finite (fl_add a b)"
  by (cases a; cases b) (simp_all add: nonneg_finite_def)

lemma fl_mul_nonneg: "nonneg_finite a \<Longrightarrow> nonneg_finite b \<Longrightarrow> nonneg_finite (fl_mul a b)"
  by (cases a; cases b) (simp_all add: nonneg_finite_def)

lemma np_sum_nonneg: "list_all nonneg_finite xs \<Longrightarrow> nonneg_finite (np_sum xs)"
  by (induction xs) (simp_all add: np_sum_def fl_add_nonneg, simp add: nonneg_finite_def)

lemma np_mean_nonneg:
  assumes "list_all nonneg_finite xs" and "xs \<noteq> []"
  shows "nonneg_finite (np_mean xs)"
proof -
  obtain s where s: "np_sum xs = Fin s" "0 \<le> s"
    using np_sum_nonneg[OF assms(1)] by (cases "np_sum xs") (simp_all add: nonneg_finite_def)
  have "0 < real (length xs)" using assms(2) by simp
  then show ?thesis unfolding np_mean_def s using s(2) by (simp add: nonneg_finite_def)
qed

lemma nonneg_finite_iff: "nonneg_finite x \<longleftrightarrow> is_finite x \<and> not_negative x"
  by (cases x) (simp_all add: nonneg_finite_def is_finite_def not_negative_def)

lemma np_mean_cases:
  assumes "list_all not_negative row"
  shows "nonneg_finite (np_mean row) \<or> \<not> is_finite (np_mean row)"
proof (cases "list_all is_finite row \<and> row \<noteq> []")
  case True
  then have "list_all nonneg_finite row"
    using assms by (simp add: list_all_iff nonneg_finite_iff)
  then show ?thesis using True np_mean_nonneg by blast
next
  case False
  then show ?thesis using np_mean_not_finite by (auto simp: np_mean_Nil is_finite_def)
qed

subsection \<open>Maximum and argmax\<close>

lemma foldl_np_maximum_pres:
  assumes "\<And>a b. P a \<Longrightarrow> P b \<Longrightarrow> P (np_maximum a b)" and "P x" and "list_all P xs"
  shows "P (foldl np_maximum x xs)"
  using assms(2,3) by (induction xs arbitrary: x) (simp_all add: assms(1))

lemma np_max_pres:
  assumes "\<And>a b. P a \<Longrightarrow> P b \<Longrightarrow> P (np_maximum a b)" and "list_all P xs" and "xs \<noteq> []"
  shows "\<exists>m. np_max xs = Inr m \<and> P m"
  using assms(2,3) foldl_np_maximum_pres[of P, OF assms(1)]
  by (cases xs) (simp_all add: np_max_def)

lemma np_maximum_choice: "np_maximum a b = a \<or> np_maximum a b = b"
  by (simp add: np_maximum_def)

lemma argmax_from_bound:
  "best_i < i \<Longrightarrow> argmax_from best_i best i xs < i + length xs"
proof (induction xs arbitrary: best_i best i)
  case Nil
  then show ?case by simp
next
  case (Cons x xs)
  have 1: "argmax_from i x (Suc i) xs < Suc i + length xs"
    by (rule Cons.IH) simp
  have 2: "argmax_from best_i best (Suc i) xs < Suc i + length xs"
    by (rule Cons.IH) (use Cons.prems in simp)
  show ?case using 1 2 by simp
qed

lemma np_argmax_bound: "xs \<noteq> [] \<Longrightarrow> \<exists>i. np_argmax xs = Inr i \<and> i < length xs"
  using argmax_from_bound[of 0 1] by (cases xs) (auto simp: np_argmax_def)

subsection \<open>Normalisation\<close>

lemma normalize_not_finite: "\<not> list_all is_finite S \<Longrightarrow> normalize S = Inl ParameterError"
  by (simp add: normalize_def)

lemma normalize_Nil: "normalize [] = Inl ValueError"
  by (simp add: normalize_def np_max_def)

lemma tiny_pos: "0 < tiny"
  by (simp add: tiny_def)

lemma np_maximum_nonneg:
  "nonneg_finite a \<Longrightarrow> nonneg_finite b \<Longrightarrow> nonneg_finite (np_maximum a b)"
  by (simp add: np_maximum_def)

lemma fl_abs_nonneg: "is_finite x \<Longrightarrow> nonneg_finite (fl_abs x)"
  by (cases x) (simp_all add: is_finite_def nonneg_finite_def)

lemma fl_div_nonneg: "nonneg_finite x \<Longrightarrow> 0 < l \<Longrightarrow> nonneg_finite (fl_div x (Fin l))"
  by (cases x) (simp_all add: nonneg_finite_def)

lemma normalize_nonneg:
  assumes "normalize S = Inr w" and "list_all not_negative S"
  shows "list_all nonneg_finite w \<and> w \<noteq> []"
proof -
  have fin: "list_all is_finite S"
    using assms(1) by (auto simp: normalize_def split: if_splits)
  have ne: "S \<noteq> []" using assms(1) by (auto simp: normalize_Nil)
  have nn: "list_all nonneg_finite S"
    using fin assms(2) by (simp add: list_all_iff nonneg_finite_iff)
  have "list_all nonneg_finite (map fl_abs S)"
    using fin by (simp add: list_all_iff fl_abs_nonneg)
  then obtain mx where mx: "np_max (map fl_abs S) = Inr mx" "nonneg_finite mx"
    using np_max_pres[of nonneg_finite "map fl_abs S"] np_maximum_nonneg ne by auto
  then obtain m where m: "mx = Fin m" "0 \<le> m"
    by (cases mx) (simp_all add: nonneg_finite_def)
  define l where "l = (if m < tiny then 1 else m)"
  have lpos: "0 < l" using tiny_pos by (auto simp: l_def)
  have w: "w = map (\<lambda>x. fl_div x (Fin l)) S"
    using assms(1) fin mx(1) m(1) by (auto simp: normalize_def l_def)
  show ?thesis
    using nn ne lpos unfolding w by (simp add: list_all_iff fl_div_nonneg)
qed

subsection \<open>Correlation with the rolled templates\<close>

lemma set_np_roll: "set (np_roll xs i) = set xs"
proof (cases "xs = []")
  case True
  then show ?thesis by (simp add: np_roll_def)
next
  case False
  have "set (drop k xs @ take k xs) = set xs" for k
    using set_append[of "take k xs" "drop k xs"] by (simp add: Un_commute)
  then show ?thesis using False by (simp add: np_roll_def Let_def)
qed

lemma length_np_roll: "length (np_roll xs i) = length xs"
  by (auto simp: np_roll_def Let_def)

lemma dot_nonneg:
  "list_all nonneg_finite xs \<Longrightarrow> list_all nonneg_finite ys \<Longrightarrow> nonneg_finite (dot xs ys)"
  unfolding dot_def
  by (rule np_sum_nonneg)
     (auto simp: list_all_iff intro!: fl_mul_nonneg dest: set_zip_leftD set_zip_rightD)

lemma list_all_take: "list_all P xs \<Longrightarrow> list_all P (take n xs)"
  by (auto simp: list_all_iff dest: in_set_takeD)

lemma list_all_drop: "list_all P xs \<Longrightarrow> list_all P (drop n xs)"
  by (auto simp: list_all_iff dest: in_set_dropD)

lemma np_correlate0_nonneg:
  assumes "list_all nonneg_finite a" "list_all nonneg_finite v" "a \<noteq> []" "v \<noteq> []"
  shows "\<exists>c. np_correlate0 a v = Inr c \<and> nonneg_finite c"
  using assms by (simp add: np_correlate0_def dot_nonneg list_all_take list_all_drop)

lemma major_template_nonneg: "list_all nonneg_finite major_template"
  by (simp add: major_template_def nonneg_finite_def)

lemma minor_template_nonneg: "list_all nonneg_finite minor_template"
  by (simp add: minor_template_def nonneg_finite_def)

lemma roll_template_nonneg:
  "list_all nonneg_finite (np_roll major_template i)"
  "list_all nonneg_finite (np_roll minor_template i)"
  "np_roll major_template i \<noteq> []"
  "np_roll minor_template i \<noteq> []"
proof -
  show "list_all nonneg_finite (np_roll major_template i)"
    using major_template_nonneg by (simp add: list_all_iff set_np_roll)
  show "list_all nonneg_finite (np_roll minor_template i)"
    using minor_template_nonneg by (simp add: list_all_iff set_np_roll)
  have "length (np_roll major_template i) = 12" "length (np_roll minor_template i) = 12"
    by (simp_all add: length_np_roll major_template_def minor_template_def)
  then show "np_roll major_template i \<noteq> []" "np_roll minor_template i \<noteq> []"
    by auto
qed

lemma list_all_update: "list_all P xs \<Longrightarrow> P a \<Longrightarrow> list_all P (xs[i := a])"
  using set_update_subset_insert[of xs i a] by (auto simp: list_all_iff)

lemma corr_loop_nonneg:
  assumes "list_all nonneg_finite cn" "cn \<noteq> []"
    and "list_all nonneg_finite mj" "list_all nonneg_finite mn"
  shows "\<exists>mj' mn'. corr_loop cn idxs (mj, mn) = Inr (mj', mn')
           \<and> list_all nonneg_finite mj' \<and> list_all nonneg_finite mn'
           \<and> length mj' = length mj \<and> length mn' = length mn"
  using assms(3,4)
proof (induction idxs arbitrary: mj mn)
  case Nil
  then show ?case by simp
next
  case (Cons i rest)
  obtain a where a: "np_correlate0 cn (np_roll major_template i) = Inr a" "nonneg_finite a"
    using np_correlate0_nonneg[OF assms(1) roll_template_nonneg(1) assms(2) roll_template_nonneg(3)]
    by blast
  obtain b where b: "np_correlate0 cn (np_roll minor_template i) = Inr b" "nonneg_finite b"
    using np_correlate0_nonneg[OF assms(1) roll_template_nonneg(2) assms(2) roll_template_nonneg(4)]
    by blast
  have "list_all nonneg_finite (mj[i := a])" "list_all nonneg_finite (mn[i := b])"
    using Cons.prems a(2) b(2) by (simp_all add: list_all_update)
  from Cons.IH[OF this] show ?case
    using a(1) b(1) by (simp add: Let_def)
qed

subsection \<open>The confidence and its clamp\<close>

lemma clamp_0_100:
  "x \<noteq> NaN \<Longrightarrow> \<exists>c. py_min (py_max x (Fin 0)) (Fin 100) = Fin c \<and> 0 \<le> c \<and> c \<le> 100"
  by (cases x) (auto simp: py_min_def py_max_def)

lemma fl_sub_second:
  assumes "s = NInf \<or> nonneg_finite s"
  shows "fl_sub (Fin a) s = PInf \<or> is_finite (fl_sub (Fin a) s)"
  using assms by (cases s) (simp_all add: fl_sub_def is_finite_def nonneg_finite_def)

lemma fl_div_pos_keeps:
  assumes "x = PInf \<or> is_finite x" and "0 < d"
  shows "fl_div x (Fin d) = PInf \<or> is_finite (fl_div x (Fin d))"
  using assms by (cases x) (simp_all add: is_finite_def)

lemma fl_mul_pos_keeps:
  assumes "x = PInf \<or> is_finite x" and "0 < k"
  shows "fl_mul x (Fin k) = PInf \<or> is_finite (fl_mul x (Fin k))"
  using assms by (cases x) (simp_all add: is_finite_def)

lemma fl_add_keeps:
  assumes "x = PInf \<or> is_finite x" and "y = PInf \<or> is_finite y"
  shows "fl_add x y = PInf \<or> is_finite (fl_add x y)"
  using assms by (cases x; cases y) (simp_all add: is_finite_def)

lemma keeps_not_nan: "x = PInf \<or> is_finite x \<Longrightarrow> x \<noteq> NaN"
  by (auto simp: is_finite_def)

lemma confidence_range:
  assumes a: "0 \<le> a" and b: "0 \<le> b" and s: "s = NInf \<or> nonneg_finite s"
  shows "\<exists>c. py_min (py_max
           (fl_mul (fl_add (fl_add (fl_mul (fl_div (fl_add (Fin a) (Fin 1)) (Fin 2)) (Fin 0.4))
                                   (fl_mul (fl_div (fl_sub (Fin a) s)
                                                   (fl_add (Fin a) (Fin 0.000001))) (Fin 0.4)))
                           (fl_mul (fl_div (fl_sub (Fin a) (Fin b))
                                           (fl_add (py_max (Fin a) (Fin b)) (Fin 0.000001)))
                                   (Fin 0.2)))
                   (Fin 100))
           (Fin 0)) (Fin 100) = Fin c \<and> 0 \<le> c \<and> c \<le> 100"
proof -
  have d1: "fl_add (Fin a) (Fin 0.000001) = Fin (a + 0.000001)" "0 < a + 0.000001"
    using a by simp_all
  have "fl_add (py_max (Fin a) (Fin b)) (Fin 0.000001) = Fin (max a b + 0.000001)"
    by (simp add: py_max_def max_def)
  moreover have "0 < max a b + 0.000001" using a by simp
  ultimately obtain m where d2: "fl_add (py_max (Fin a) (Fin b)) (Fin 0.000001) = Fin m" "0 < m"
    by blast
  have abs_conf: "is_finite (fl_div (fl_add (Fin a) (Fin 1)) (Fin 2))"
    by (simp add: is_finite_def)
  have rel_conf: "fl_div (fl_sub (Fin a) s) (fl_add (Fin a) (Fin 0.000001)) = PInf
      \<or> is_finite (fl_div (fl_sub (Fin a) s) (fl_add (Fin a) (Fin 0.000001)))"
    unfolding d1(1) by (rule fl_div_pos_keeps[OF fl_sub_second[OF s] d1(2)])
  have mode_conf: "is_finite (fl_div (fl_sub (Fin a) (Fin b))
      (fl_add (py_max (Fin a) (Fin b)) (Fin 0.000001)))"
    unfolding d2(1) using d2(2) by (simp add: fl_sub_def is_finite_def)
  have t1: "fl_mul (fl_div (fl_add (Fin a) (Fin 1)) (Fin 2)) (Fin 0.4) = PInf
      \<or> is_finite (fl_mul (fl_div (fl_add (Fin a) (Fin 1)) (Fin 2)) (Fin 0.4))"
    by (rule fl_mul_pos_keeps) (use abs_conf in simp_all)
  have t2: "fl_mul (fl_div (fl_sub (Fin a) s) (fl_add (Fin a) (Fin 0.000001))) (Fin 0.4) = PInf
      \<or> is_finite (fl_mul (fl_div (fl_sub (Fin a) s) (fl_add (Fin a) (Fin 0.000001))) (Fin 0.4))"
    by (rule fl_mul_pos_keeps[OF rel_conf]) simp
  have t3: "fl_mul (fl_div (fl_sub (Fin a) (Fin b))
                (fl_add (py_max (Fin a) (Fin b)) (Fin 0.000001))) (Fin 0.2) = PInf
      \<or> is_finite (fl_mul (fl_div (fl_sub (Fin a) (Fin b))
                (fl_add (py_max (Fin a) (Fin b)) (Fin 0.000001))) (Fin 0.2))"
    by (rule fl_mul_pos_keeps) (use mode_conf in simp_all)
  show ?thesis
    by (rule clamp_0_100, rule keeps_not_nan, rule fl_mul_pos_keeps,
        rule fl_add_keeps[OF fl_add_keeps[OF t1 t2] t3]) simp
qed

subsection \<open>Key and confidence\<close>

lemma np_maximum_second:
  "a = NInf \<or> nonneg_finite a \<Longrightarrow> b = NInf \<or> nonneg_finite b
   \<Longrightarrow> np_maximum a b = NInf \<or> nonneg_finite (np_maximum a b)"
  using np_maximum_choice[of a b] by auto

lemma second_best:
  assumes "list_all nonneg_finite xs" and "xs \<noteq> []"
  shows "\<exists>s. np_max (xs[i := NInf]) = Inr s \<and> (s = NInf \<or> nonneg_finite s)"
proof -
  have "list_all (\<lambda>x. x = NInf \<or> nonneg_finite x) (xs[i := NInf])"
    by (rule list_all_update) (use assms(1) in \<open>simp_all add: list_all_iff\<close>)
  moreover have "xs[i := NInf] \<noteq> []" using assms(2) by simp
  ultimately show ?thesis
    using np_max_pres[of "\<lambda>x. x = NInf \<or> nonneg_finite x" "xs[i := NInf]"] np_maximum_second
    by blast
qed

lemma length_key_names: "length key_names = 12"
  by (simp add: key_names_def)

lemma key_names_labels:
  "i < 12 \<Longrightarrow> key_names ! i \<in> key_labels"
  "i < 12 \<Longrightarrow> key_names ! i @ ''m'' \<in> key_labels"
  using nth_mem[of i key_names] unfolding key_labels_def length_key_names by blast+

lemma key_decide_range:
  assumes mj: "list_all nonneg_finite major_corr" "length major_corr = 12"
      and mn: "list_all nonneg_finite minor_corr" "length minor_corr = 12"
  shows "\<exists>k c. key_decide major_corr minor_corr = Inr (k, Fin c)
           \<and> 0 \<le> c \<and> c \<le> 100 \<and> k \<in> key_labels"
proof -
  have ne: "major_corr \<noteq> []" "minor_corr \<noteq> []" using mj(2) mn(2) by auto
  obtain i where i: "np_argmax major_corr = Inr i" "i < 12"
    using np_argmax_bound[OF ne(1)] mj(2) by auto
  obtain j where j: "np_argmax minor_corr = Inr j" "j < 12"
    using np_argmax_bound[OF ne(2)] mn(2) by auto
  have "nonneg_finite (major_corr ! i)" "nonneg_finite (minor_corr ! j)"
    using mj mn i(2) j(2) by (simp_all add: list_all_length)
  then obtain a b where a: "major_corr ! i = Fin a" "0 \<le> a" and b: "minor_corr ! j = Fin b" "0 \<le> b"
    by (cases "major_corr ! i"; cases "minor_corr ! j") (simp_all add: nonneg_finite_def)
  obtain s1 where s1: "np_max (major_corr[i := NInf]) = Inr s1" "s1 = NInf \<or> nonneg_finite s1"
    using second_best[OF mj(1) ne(1)] by blast
  obtain s2 where s2: "np_max (minor_corr[j := NInf]) = Inr s2" "s2 = NInf \<or> nonneg_finite s2"
    using second_best[OF mn(1) ne(2)] by blast
  from confidence_range[OF a(2) b(2) s1(2)] obtain c1 where c1:
    "py_min (py_max
           (fl_mul (fl_add (fl_add (fl_mul (fl_div (fl_add (Fin a) (Fin 1)) (Fin 2)) (Fin 0.4))
                                   (fl_mul (fl_div (fl_sub (Fin a) s1)
                                                   (fl_add (Fin a) (Fin 0.000001))) (Fin 0.4)))
                           (fl_mul (fl_div (fl_sub (Fin a) (Fin b))
                                           (fl_add (py_max (Fin a) (Fin b)) (Fin 0.000001)))
                                   (Fin 0.2)))
                   (Fin 100))
           (Fin 0)) (Fin 100) = Fin c1" "0 \<le> c1" "c1 \<le> 100"
    by blast
  from confidence_range[OF b(2) a(2) s2(2)] obtain c2 where c2:
    "py_min (py_max
           (fl_mul (fl_add (fl_add (fl_mul (fl_div (fl_add (Fin b) (Fin 1)) (Fin 2)) (Fin 0.4))
                                   (fl_mul (fl_div (fl_sub (Fin b) s2)
                                                   (fl_add (Fin b) (Fin 0.000001))) (Fin 0.4)))
                           (fl_mul (fl_div (fl_sub (Fin b) (Fin a))
                                           (fl_add (py_max (Fin b) (Fin a)) (Fin 0.000001)))
                                   (Fin 0.2)))
                   (Fin 100))
           (Fin 0)) (Fin 100) = Fin c2" "0 \<le> c2" "c2 \<le> 100"
    by blast
  show ?thesis
  proof (cases "fl_le (Fin b) (Fin a)")
    case True
    have "key_decide major_corr minor_corr = Inr (key_names ! i, Fin c1)"
      unfolding key_decide_def i(1) j(1) sum.case Let_def a(1) b(1) s1(1) s2(1)
      by (simp only: True if_True prod.case c1(1))
    then show ?thesis using c1(2,3) key_names_labels(1)[OF i(2)] by blast
  next
    case False
    have "key_decide major_corr minor_corr = Inr (key_names ! j @ ''m'', Fin c2)"
      unfolding key_decide_def i(1) j(1) sum.case Let_def a(1) b(1) s1(1) s2(1)
      by (simp only: False if_False prod.case c2(1))
    then show ?thesis using c2(2,3) key_names_labels(2)[OF j(2)] by blast
  qed
qed

lemma estimate_key_failure:
  "estimate_key_try c = Inl e \<Longrightarrow> estimate_key c = (''Unknown'', Fin 0)"
  by (simp add: estimate_key_def)

lemma estimate_key_not_finite:
  assumes "chroma = [] \<or> (\<exists>row\<in>set chroma. row = [] \<or> \<not> list_all is_finite row)"
  shows "estimate_key (Inr chroma) = (''Unknown'', Fin 0)"
proof -
  have "\<exists>e. normalize (map np_mean chroma) = Inl e"
  proof (cases "chroma = []")
    case True
    then show ?thesis by (simp add: normalize_Nil)
  next
    case False
    then obtain row where row: "row \<in> set chroma" "row = [] \<or> \<not> list_all is_finite row"
      using assms by blast
    have "\<not> is_finite (np_mean row)"
      using row(2) np_mean_not_finite by (auto simp: np_mean_Nil is_finite_def)
    then have "\<not> list_all is_finite (map np_mean chroma)"
      using row(1) by (auto simp: list_all_iff)
    then show ?thesis by (simp add: normalize_not_finite)
  qed
  then show ?thesis
    by (auto simp: estimate_key_def estimate_key_try_def)
qed

lemma estimate_key_range:
  assumes "list_all (list_all not_negative) chroma"
  shows "\<exists>k c. estimate_key (Inr chroma) = (k, Fin c) \<and> 0 \<le> c \<and> c \<le> 100
           \<and> k \<in> key_labels \<union> {''Unknown''}"
proof (cases "normalize (map np_mean chroma)")
  case (Inl e)
  then show ?thesis by (simp add: estimate_key_def estimate_key_try_def)
next
  case (Inr chroma_norm)
  have "list_all not_negative (map np_mean chroma)"
  proof -
    have "not_negative (np_mean row)" if "row \<in> set chroma" for row
    proof -
      have "list_all not_negative row" using assms that by (simp add: list_all_iff)
      from np_mean_cases[OF this] show ?thesis
        by (cases "np_mean row") (simp_all add: nonneg_finite_def not_negative_def is_finite_def)
    qed
    then show ?thesis by (simp add: list_all_iff)
  qed
  from normalize_nonneg[OF Inr this]
  have cn: "list_all nonneg_finite chroma_norm" "chroma_norm \<noteq> []" by simp_all
  have z: "list_all nonneg_finite (replicate 12 (Fin 0))"
    by (simp add: list_all_iff nonneg_finite_def)
  obtain mj mn where loop:
    "corr_loop chroma_norm [0..<12] (replicate 12 (Fin 0), replicate 12 (Fin 0)) = Inr (mj, mn)"
    "list_all nonneg_finite mj" "list_all nonneg_finite mn" "length mj = 12" "length mn = 12"
    using corr_loop_nonneg[OF cn z z, of "[0..<12]"] by auto
  obtain k c where "key_decide mj mn = Inr (k, Fin c)" "0 \<le> c" "c \<le> 100" "k \<in> key_labels"
    using key_decide_range[OF loop(2,4,3,5)] by blast
  then show ?thesis
    using Inr loop(1) by (simp add: estimate_key_def estimate_key_try_def)
qed

lemma estimate_key_depends_on_means:
  "map np_mean c1 = map np_mean c2 \<Longrightarrow> estimate_key (Inr c1) = estimate_key (Inr c2)"
  by (simp add: estimate_key_def estimate_key_try_def)

lemma np_mean_zeros:
  assumes "row \<noteq> []" and "\<forall>x\<in>set row. x = Fin 0"
  shows "np_mean row = Fin 0"
proof -
  have "np_sum row = Fin 0" using assms(2)
    by (induction row) (simp_all add: np_sum_def)
  then show ?thesis using assms(1) by (simp add: np_mean_def)
qed

lemma estimate_key_zero_column: "estimate_key (Inr (replicate 12 [Fin 0])) = (''C'', Fin 20)"
  by code_simp

lemma estimate_key_all_zero:
  assumes "length chroma = 12" and "\<forall>row\<in>set chroma. row \<noteq> [] \<and> (\<forall>x\<in>set row. x = Fin 0)"
  shows "estimate_key (Inr chroma) = (''C'', Fin 20)"
proof -
  have "map np_mean chroma = replicate (length chroma) (Fin 0)"
    using assms(2) by (simp add: map_replicate_const[symmetric] np_mean_zeros)
  also have "\<dots> = map np_mean (replicate 12 [Fin 0])"
    by (simp add: assms(1) np_mean_zeros)
  finally show ?thesis
    using estimate_key_depends_on_means estimate_key_zero_column by metis
qed

subsection \<open>The claims about the key estimator\<close>

text \<open>
  Claim C1, as stated, fails: on a chromagram with a NaN the label returned is
  \<open>Unknown\<close>, with a capital letter, not \<open>unknown\<close>.
\<close>

theorem estimate_key_sentinel_is_capitalised:
  "estimate_key (Inr ([NaN] # replicate 11 [Fin 0.5])) \<noteq> (''unknown'', Fin 0)"
proof -
  have "estimate_key (Inr ([NaN] # replicate 11 [Fin 0.5])) = (''Unknown'', Fin 0)"
    by (rule estimate_key_not_finite) (simp add: is_finite_def)
  then show ?thesis by simp
qed

text \<open>
  Claim C1, amended. When the chromagram has no rows, has a row without columns (an empty
  matrix) or has an entry that is NaN or infinite, \<open>estimate_key\<close> returns the sentinel
  \<open>Unknown\<close> with confidence 0.0; so it does when the chromagram extraction raises, and
  whenever the body of its \<open>try\<close> raises: no exception leaves the function.
\<close>

theorem estimate_key_failure_sentinel:
  "((chroma = [] \<or> (\<exists>row\<in>set chroma. row = [] \<or> (\<exists>x\<in>set row. \<not> is_finite x)))
      \<longrightarrow> estimate_key (Inr chroma) = (''Unknown'', Fin 0))
   \<and> estimate_key (Inl e) = (''Unknown'', Fin 0)
   \<and> (\<forall>e'. estimate_key_try c = Inl e' \<longrightarrow> estimate_key c = (''Unknown'', Fin 0))"
proof -
  have "estimate_key (Inr chroma) = (''Unknown'', Fin 0)"
    if "chroma = [] \<or> (\<exists>row\<in>set chroma. row = [] \<or> (\<exists>x\<in>set row. \<not> is_finite x))"
    by (rule estimate_key_not_finite) (use that in \<open>auto simp: list_all_iff\<close>)
  moreover have "estimate_key (Inl e) = (''Unknown'', Fin 0)"
    by (simp add: estimate_key_def estimate_key_try_def)
  ultimately show ?thesis using estimate_key_failure by blast
qed

theorem estimate_key_failure_sentinel_witness:
  "estimate_key (Inr (replicate 12 [])) = (''Unknown'', Fin 0)
   \<and> estimate_key (Inr ([Fin 1, NaN] # replicate 11 [Fin 0, Fin 0])) = (''Unknown'', Fin 0)"
  using estimate_key_failure_sentinel [of "replicate 12 []"]
        estimate_key_failure_sentinel [of "[Fin 1, NaN] # replicate 11 [Fin 0, Fin 0]"]
  by (simp add: is_finite_def)

text \<open>
  Claim C2, as stated, fails: for an all-zero chromagram of three frames the confidence is
  20.0, not 0.0.
\<close>

theorem estimate_key_all_zero_confidence_20:
  "estimate_key (Inr (replicate 12 [Fin 0, Fin 0, Fin 0])) = (''C'', Fin 20)
   \<and> snd (estimate_key (Inr (replicate 12 [Fin 0, Fin 0, Fin 0]))) \<noteq> Fin 0"
proof -
  have "estimate_key (Inr (replicate 12 [Fin 0, Fin 0, Fin 0])) = (''C'', Fin 20)"
    by (rule estimate_key_all_zero) simp_all
  then show ?thesis by simp
qed

text \<open>
  Claim C2, amended. For a chromagram of 12 rows whose entries are all zero,
  \<open>estimate_key\<close> returns the degenerate-tie default \<open>C\<close> with confidence exactly 20.0 when
  there is at least one frame, and \<open>Unknown\<close> with confidence 0.0 when a row has no frame;
  the confidence is never NaN.
\<close>

theorem estimate_key_all_zero_chroma:
  assumes "length chroma = 12" and "\<forall>row\<in>set chroma. \<forall>x\<in>set row. x = Fin 0"
  shows "estimate_key (Inr chroma)
           = (if \<forall>row\<in>set chroma. row \<noteq> [] then (''C'', Fin 20) else (''Unknown'', Fin 0))
         \<and> \<not> is_nan (snd (estimate_key (Inr chroma)))"
proof (cases "\<forall>row\<in>set chroma. row \<noteq> []")
  case True
  then have "estimate_key (Inr chroma) = (''C'', Fin 20)"
    using assms by (intro estimate_key_all_zero) auto
  then show ?thesis using True by (simp add: is_nan_def)
next
  case False
  then have "estimate_key (Inr chroma) = (''Unknown'', Fin 0)"
    by (intro estimate_key_not_finite) auto
  then show ?thesis using False by (simp add: is_nan_def)
qed

theorem estimate_key_all_zero_chroma_witness:
  "estimate_key (Inr (replicate 12 [Fin 0, Fin 0])) = (''C'', Fin 20)
   \<and> estimate_key (Inr (replicate 12 [])) = (''Unknown'', Fin 0)"
  using estimate_key_all_zero_chroma [of "replicate 12 [Fin 0, Fin 0]"]
        estimate_key_all_zero_chroma [of "replicate 12 []"]
  by simp

lemma Unknown_not_key_label: "''Unknown'' \<notin> key_labels"
  by (simp add: key_labels_def key_names_def)

lemma card_key_labels: "card key_labels = 24"
  by (simp add: key_labels_def key_names_def)

text \<open>
  Claim C4, as stated, fails: for a chromagram without frames the label is \<open>Unknown\<close>,
  which is neither one of the 24 key labels nor \<open>unknown\<close>.
\<close>

theorem estimate_key_label_outside_claimed_set:
  "fst (estimate_key (Inr (replicate 12 []))) \<notin> key_labels \<union> {''unknown''}"
proof -
  have "estimate_key (Inr (replicate 12 [])) = (''Unknown'', Fin 0)"
    by (rule estimate_key_not_finite) simp
  then show ?thesis using Unknown_not_key_label by simp
qed

text \<open>
  Claim C4, amended. There are 24 key labels, and for every chromagram without a negative
  entry \<open>estimate_key\<close> returns a confidence in \<open>[0, 100]\<close> and a label that is one of
  the 24 or the sentinel \<open>Unknown\<close>.
\<close>

theorem estimate_key_confidence_and_label:
  "card key_labels = 24
   \<and> (list_all (list_all not_negative) chroma \<longrightarrow>
        (\<exists>k c. estimate_key (Inr chroma) = (k, Fin c) \<and> 0 \<le> c \<and> c \<le> 100
           \<and> k \<in> key_labels \<union> {''Unknown''}))"
  using card_key_labels estimate_key_range by blast

theorem estimate_key_confidence_and_label_witness:
  "\<exists>k c. estimate_key (Inr (replicate 12 [Fin 0.25, Fin 0.5])) = (k, Fin c) \<and> 0 \<le> c \<and> c \<le> 100
           \<and> k \<in> key_labels \<union> {''Unknown''}"
  using estimate_key_confidence_and_label [of "replicate 12 [Fin 0.25, Fin 0.5]"]
  by (simp add: not_negative_def list_all_iff)

section \<open>Properties of the loudness estimator\<close>

subsection \<open>Clamping\<close>

lemma py_clamp_eq:
  "x \<noteq> NaN \<Longrightarrow> py_max (py_min x (Fin 0)) (Fin (- 70)) = clamp (Fin (- 70)) (Fin 0) x"
  by (cases x) (auto simp: py_max_def py_min_def clamp_def)

lemma clamp_in_range: "\<exists>r. clamp (Fin (- 70)) (Fin 0) x = Fin r \<and> - 70 \<le> r \<and> r \<le> 0"
  by (cases x) (auto simp: clamp_def)

lemma py_clamp_nan: "py_max (py_min NaN (Fin 0)) (Fin (- 70)) = NaN"
  by (simp add: py_max_def py_min_def)

lemma clamp_range:
  "x \<noteq> NaN \<Longrightarrow> \<exists>r. clamp (Fin (- 70)) (Fin 0) x = Fin r \<and> - 70 \<le> r \<and> r \<le> 0"
  by (cases x) (auto simp: clamp_def)


subsection \<open>Sums of values that are finite or plus infinity\<close>

lemma np_sum_Cons: "np_sum (x # xs) = fl_add x (np_sum xs)"
  by (simp add: np_sum_def)

lemma np_sum_keeps:
  "list_all (\<lambda>x. x = PInf \<or> is_finite x) xs \<Longrightarrow> np_sum xs = PInf \<or> is_finite (np_sum xs)"
proof (induction xs)
  case Nil
  show ?case by (simp add: np_sum_def is_finite_def)
next
  case (Cons x xs)
  then show ?case unfolding np_sum_Cons by (intro fl_add_keeps) simp_all
qed

lemma np_mean_keeps:
  assumes "list_all (\<lambda>x. x = PInf \<or> is_finite x) xs" and "xs \<noteq> []"
  shows "np_mean xs = PInf \<or> is_finite (np_mean xs)"
  unfolding np_mean_def
  by (rule fl_div_pos_keeps[OF np_sum_keeps[OF assms(1)]]) (use assms(2) in simp)

lemma fl_lt_keeps: "fl_lt t d \<Longrightarrow> d = PInf \<or> is_finite d"
  by (cases t; cases d) (simp_all add: is_finite_def)

lemma fl_sub_keeps: "x = PInf \<or> is_finite x \<Longrightarrow> fl_sub x (Fin c) = PInf \<or> is_finite (fl_sub x (Fin c))"
  by (cases x) (simp_all add: fl_sub_def is_finite_def)

lemma filter_fl_lt_keeps: "list_all (\<lambda>x. x = PInf \<or> is_finite x) (filter (fl_lt t) xs)"
  by (auto simp: list_all_iff dest: fl_lt_keeps)

lemma gated_loudness_range:
  "\<exists>r. gated_loudness block_db = Fin r \<and> - 70 \<le> r \<and> r \<le> 0"
proof (cases "valid_db block_db = [] \<or> final_db block_db = []")
  case True
  then show ?thesis by (auto simp: gated_loudness_def)
next
  case False
  have "list_all (\<lambda>x. x = PInf \<or> is_finite x) (final_db block_db)"
    unfolding final_db_def by (rule filter_fl_lt_keeps)
  then have "np_mean (final_db block_db) = PInf \<or> is_finite (np_mean (final_db block_db))"
    using False by (intro np_mean_keeps) simp_all
  then have nn: "fl_sub (np_mean (final_db block_db)) (Fin 10) \<noteq> NaN"
    by (intro keeps_not_nan fl_sub_keeps)
  from clamp_range[OF nn] show ?thesis
    using False by (simp add: gated_loudness_def py_clamp_eq[OF nn])
qed


subsection \<open>The two gates\<close>








lemma valid_db_idem: "valid_db (valid_db bd) = valid_db bd"
  by (simp add: valid_db_def)



subsection \<open>Block length and framing\<close>

lemma block_length_nonpos: "sr \<le> 0 \<Longrightarrow> block_length sr \<le> 0"
proof -
  assume "sr \<le> 0"
  then have "0.4 * real_of_int sr \<le> 0" by simp
  then show ?thesis unfolding block_length_def py_int_def
    by (auto simp: ceiling_le_zero intro: order_trans)
qed

lemma hop_length_nonpos: "sr \<le> 0 \<Longrightarrow> hop_length sr < 1"
  using block_length_nonpos[of sr] unfolding hop_length_def by linarith

lemma calculate_lufs_empty: "calculate_lufs [] sr = Fin (- 70)"
  by (simp add: calculate_lufs_def calculate_lufs_try_def)

lemma calculate_lufs_nonpos_rate:
  assumes "sr \<le> 0"
  shows "calculate_lufs y sr = Fin (- 70)"
proof (cases "y = []")
  case True
  then show ?thesis by (simp add: calculate_lufs_empty)
next
  case False
  have "\<not> int (length y) < block_length sr"
    using block_length_nonpos[OF assms] by linarith
  moreover have "frame y (block_length sr) (hop_length sr) = Inl ParameterError"
    using hop_length_nonpos[OF assms] by (simp add: frame_def)
  ultimately show ?thesis
    using False by (simp add: calculate_lufs_def calculate_lufs_try_def)
qed

lemma calculate_lufs_framed:
  assumes "y \<noteq> []" and "\<not> int (length y) < block_length sr"
    and "frame y (block_length sr) (hop_length sr) = Inr blocks"
  shows "calculate_lufs y sr = gated_loudness (map db_of (map rms_of blocks))"
  using assms by (simp add: calculate_lufs_def calculate_lufs_try_def)

subsection \<open>Silence\<close>

lemma log10_floor: "log 10 (1 / 100000000) = - 8"
proof -
  have "(1 / 100000000 :: real) = 10 powr (- 8)"
    by (simp add: powr_minus_divide)
  then show ?thesis by (simp only: log_powr_cancel)
qed

lemma db_of_zero: "db_of (Fin 0) = Fin (- 160)"
  using log10_floor by (simp add: db_of_def)

lemma rms_of_zeros:
  assumes "\<forall>x\<in>set b. x = Fin 0"
  shows "rms_of b = (if b = [] then NaN else Fin 0)"
proof -
  have "\<forall>x\<in>set (map (\<lambda>x. fl_mul x x) b). x = Fin 0" using assms by auto
  then have "np_mean (map (\<lambda>x. fl_mul x x) b) = (if b = [] then NaN else Fin 0)"
    using np_mean_zeros[of "map (\<lambda>x. fl_mul x x) b"] by (auto simp: np_mean_Nil)
  then show ?thesis by (simp add: rms_of_def)
qed

lemma silent_block_gated:
  assumes "\<forall>x\<in>set b. x = Fin 0"
  shows "\<not> fl_lt (Fin (- 70)) (db_of (rms_of b))"
  unfolding rms_of_zeros[OF assms] by (simp add: db_of_zero) (simp add: db_of_def)

lemma frame_blocks_subset:
  assumes "frame y fl hop = Inr blocks" and "b \<in> set blocks"
  shows "set b \<subseteq> set y"
proof -
  obtain t where "b = take (nat fl) (drop (t * nat hop) y)"
    using assms by (auto simp: frame_def split: if_splits)
  then show ?thesis by (auto dest: in_set_takeD in_set_dropD)
qed

lemma calculate_lufs_silence:
  assumes "\<forall>x\<in>set y. x = Fin 0"
  shows "calculate_lufs y sr = Fin (- 70)"
proof (cases "y = []")
  case True
  then show ?thesis by (simp add: calculate_lufs_empty)
next
  case ne: False
  show ?thesis
  proof (cases "int (length y) < block_length sr")
    case True
    have "rms_of y = Fin 0" using rms_of_zeros[OF assms] ne by simp
    then show ?thesis
      using ne True
      by (simp add: calculate_lufs_def calculate_lufs_try_def db_of_zero fl_sub_def
          py_min_def py_max_def)
  next
    case False
    show ?thesis
    proof (cases "frame y (block_length sr) (hop_length sr)")
      case (Inl e)
      then show ?thesis using ne False by (simp add: calculate_lufs_def calculate_lufs_try_def)
    next
      case (Inr blocks)
      have "\<not> fl_lt (Fin (- 70)) (db_of (rms_of b))" if "b \<in> set blocks" for b
        using frame_blocks_subset[OF Inr that] assms by (intro silent_block_gated) auto
      then have "valid_db (map db_of (map rms_of blocks)) = []"
        by (simp add: valid_db_def filter_empty_conv)
      then show ?thesis
        using calculate_lufs_framed[OF ne False Inr] by (simp add: gated_loudness_def)
    qed
  qed
qed

subsection \<open>Buffers without NaN\<close>

lemma square_keeps: "\<not> is_nan x \<Longrightarrow> fl_mul x x = PInf \<or> nonneg_finite (fl_mul x x)"
  by (cases x) (simp_all add: is_nan_def nonneg_finite_def)

lemma fl_add_energy:
  "a = PInf \<or> nonneg_finite a \<Longrightarrow> b = PInf \<or> nonneg_finite b
   \<Longrightarrow> fl_add a b = PInf \<or> nonneg_finite (fl_add a b)"
  by (cases a; cases b) (simp_all add: nonneg_finite_def)

lemma np_sum_energy:
  "list_all (\<lambda>x. x = PInf \<or> nonneg_finite x) xs \<Longrightarrow> np_sum xs = PInf \<or> nonneg_finite (np_sum xs)"
proof (induction xs)
  case Nil
  show ?case by (simp add: np_sum_def nonneg_finite_def)
next
  case (Cons x xs)
  then show ?case unfolding np_sum_Cons by (intro fl_add_energy) simp_all
qed

lemma rms_of_energy:
  assumes "\<forall>x\<in>set y. \<not> is_nan x" and "y \<noteq> []"
  shows "rms_of y = PInf \<or> nonneg_finite (rms_of y)"
proof -
  have "list_all (\<lambda>x. x = PInf \<or> nonneg_finite x) (map (\<lambda>x. fl_mul x x) y)"
    using assms(1) by (simp add: list_all_iff square_keeps)
  from np_sum_energy[OF this]
  have "np_mean (map (\<lambda>x. fl_mul x x) y) = PInf \<or> nonneg_finite (np_mean (map (\<lambda>x. fl_mul x x) y))"
    using assms(2) unfolding np_mean_def
    by (cases "np_sum (map (\<lambda>x. fl_mul x x) y)") (simp_all add: nonneg_finite_def)
  then show ?thesis unfolding rms_of_def
    by (cases "np_mean (map (\<lambda>x. fl_mul x x) y)") (simp_all add: nonneg_finite_def)
qed

lemma db_of_energy:
  assumes "r = PInf \<or> nonneg_finite r"
  shows "db_of r = PInf \<or> is_finite (db_of r)"
  using assms by (cases r) (simp_all add: db_of_def nonneg_finite_def is_finite_def)

lemma whole_signal_not_nan:
  assumes "\<forall>x\<in>set y. \<not> is_nan x" and "y \<noteq> []"
  shows "fl_sub (db_of (rms_of y)) (Fin 10) \<noteq> NaN"
  by (intro keeps_not_nan fl_sub_keeps db_of_energy rms_of_energy assms)

lemma spec_whole_signal_loudness_rms:
  "spec_whole_signal_loudness y = clamp (Fin (- 70)) (Fin 0) (fl_sub (db_of (rms_of y)) (Fin 10))"
  by (simp add: spec_whole_signal_loudness_def rms_of_def db_of_def np_mean_def)

lemma calculate_lufs_short:
  assumes "y \<noteq> []" and "\<forall>x\<in>set y. \<not> is_nan x" and "int (length y) < block_length sr"
  shows "calculate_lufs y sr = spec_whole_signal_loudness y"
  using assms(1,3)
  by (simp add: calculate_lufs_def calculate_lufs_try_def spec_whole_signal_loudness_rms
      py_clamp_eq[OF whole_signal_not_nan[OF assms(2,1)]])

lemma calculate_lufs_range:
  assumes "\<forall>x\<in>set y. \<not> is_nan x"
  shows "\<exists>r. calculate_lufs y sr = Fin r \<and> - 70 \<le> r \<and> r \<le> 0"
proof (cases "y = []")
  case True
  then show ?thesis by (simp add: calculate_lufs_empty)
next
  case ne: False
  show ?thesis
  proof (cases "int (length y) < block_length sr")
    case True
    have nn: "fl_sub (db_of (rms_of y)) (Fin 10) \<noteq> NaN"
      by (rule whole_signal_not_nan[OF assms ne])
    from clamp_range[OF nn] show ?thesis
      using ne True by (simp add: calculate_lufs_def calculate_lufs_try_def py_clamp_eq[OF nn])
  next
    case False
    show ?thesis
    proof (cases "frame y (block_length sr) (hop_length sr)")
      case (Inl e)
      then show ?thesis using ne False by (simp add: calculate_lufs_def calculate_lufs_try_def)
    next
      case (Inr blocks)
      show ?thesis
        unfolding calculate_lufs_framed[OF ne False Inr] by (rule gated_loudness_range)
    qed
  qed
qed

lemma block_length_44100: "block_length 44100 = 17640"
  by (simp add: block_length_def py_int_def)

lemma calculate_lufs_nan_sample: "calculate_lufs [NaN] 44100 = NaN"
  by (simp add: calculate_lufs_def calculate_lufs_try_def block_length_44100 rms_of_def
      db_of_def np_mean_def np_sum_def fl_sub_def py_min_def py_max_def)

subsection \<open>Two quiet frames\<close>

text \<open>
  A signal of three samples at sample rate 5 (blocks of 2 samples, hop 1) whose two blocks
  measure \<open>-65\<close> dB and \<open>-72\<close> dB.
\<close>

lemma ten_powr_gt:
  assumes "- 8 < (x::real)"
  shows "1 / 100000000 < 10 powr x"
proof -
  have "(1 / 100000000 :: real) = 10 powr (- 8)"
    by (simp add: powr_minus_divide)
  also have "\<dots> < 10 powr x" using assms by (simp add: powr_less_mono)
  finally show ?thesis .
qed

lemma rms_of_scaled_pair:
  assumes "0 < c"
  shows "rms_of [Fin (sqrt 2 * c), Fin 0] = Fin c" "rms_of [Fin 0, Fin (sqrt 2 * c)] = Fin c"
proof -
  have "sqrt 2 * c * (sqrt 2 * c) = (sqrt 2 * sqrt 2) * (c * c)"
    by (simp add: algebra_simps)
  then have e: "sqrt 2 * c * (sqrt 2 * c) / 2 = c * c"
    by simp
  have "sqrt (sqrt 2 * c * (sqrt 2 * c) / 2) = sqrt (c * c)"
    by (simp only: e)
  also have "\<dots> = c" using assms by simp
  finally have "sqrt (sqrt 2 * c * (sqrt 2 * c) / 2) = c" .
  then show "rms_of [Fin (sqrt 2 * c), Fin 0] = Fin c" "rms_of [Fin 0, Fin (sqrt 2 * c)] = Fin c"
    by (simp_all add: rms_of_def np_mean_def np_sum_def)
qed

lemma db_of_powr:
  assumes "- 8 < x"
  shows "db_of (Fin (10 powr x - 1 / 100000000)) = Fin (20 * x)"
  using ten_powr_gt[OF assms] by (simp add: db_of_def)

lemma quiet_frames:
  "frame [Fin (sqrt 2 * (10 powr - (13 / 4) - 1 / 100000000)), Fin 0,
          Fin (sqrt 2 * (10 powr - (18 / 5) - 1 / 100000000))] (block_length 5) (hop_length 5)
     = Inr [[Fin (sqrt 2 * (10 powr - (13 / 4) - 1 / 100000000)), Fin 0],
            [Fin 0, Fin (sqrt 2 * (10 powr - (18 / 5) - 1 / 100000000))]]"
  by (simp add: frame_def block_length_def hop_length_def py_int_def upt_conv_Cons)

lemma quiet_frames_db:
  "map db_of (map rms_of
       [[Fin (sqrt 2 * (10 powr - (13 / 4) - 1 / 100000000)), Fin 0],
        [Fin 0, Fin (sqrt 2 * (10 powr - (18 / 5) - 1 / 100000000))]])
     = [Fin (- 65), Fin (- 72)]"
proof -
  have p1: "0 < 10 powr - (13 / 4) - 1 / (100000000::real)"
    using ten_powr_gt[of "- (13 / 4)"] by simp
  have p2: "0 < 10 powr - (18 / 5) - 1 / (100000000::real)"
    using ten_powr_gt[of "- (18 / 5)"] by simp
  have d1: "db_of (Fin (10 powr - (13 / 4) - 1 / 100000000)) = Fin (- 65)"
    using db_of_powr[of "- (13 / 4)"] by simp
  have d2: "db_of (Fin (10 powr - (18 / 5) - 1 / 100000000)) = Fin (- 72)"
    using db_of_powr[of "- (18 / 5)"] by simp
  show ?thesis
    unfolding list.map rms_of_scaled_pair(1)[OF p1] rms_of_scaled_pair(2)[OF p2] d1 d2 ..
qed

text \<open>
  The mask \<open>block_db > relative_threshold\<close> (line 270) is taken over all blocks, not over
  \<open>valid_db\<close>. For these two frames the threshold is \<open>-75\<close>, so the selection whose mean
  is taken holds the block at \<open>-72\<close> dB as well and its mean is \<open>-68.5\<close>, where the blocks
  above \<open>-70\<close> dB alone have the mean \<open>-65\<close>. Both values minus 10 are clamped to
  \<open>-70.0\<close>: the loudness returned does not depend on this mask (see
  \<open>gated_loudness_spec\<close>).
\<close>

lemma relative_mask_over_all_blocks:
  "frame [Fin (sqrt 2 * (10 powr - (13 / 4) - 1 / 100000000)), Fin 0,
          Fin (sqrt 2 * (10 powr - (18 / 5) - 1 / 100000000))] (block_length 5) (hop_length 5)
     = Inr [[Fin (sqrt 2 * (10 powr - (13 / 4) - 1 / 100000000)), Fin 0],
            [Fin 0, Fin (sqrt 2 * (10 powr - (18 / 5) - 1 / 100000000))]]
   \<and> map db_of (map rms_of
         [[Fin (sqrt 2 * (10 powr - (13 / 4) - 1 / 100000000)), Fin 0],
          [Fin 0, Fin (sqrt 2 * (10 powr - (18 / 5) - 1 / 100000000))]])
       = [Fin (- 65), Fin (- 72)]
   \<and> Fin (- 72) \<in> set (final_db [Fin (- 65), Fin (- 72)])
   \<and> \<not> fl_lt (Fin (- 70)) (Fin (- 72))
   \<and> np_mean (final_db [Fin (- 65), Fin (- 72)]) = Fin (- 68.5)
   \<and> np_mean (filter (fl_lt (Fin (- 70))) (final_db [Fin (- 65), Fin (- 72)])) = Fin (- 65)"
proof -
  have "Fin (- 72) \<in> set (final_db [Fin (- 65), Fin (- 72)])
     \<and> \<not> fl_lt (Fin (- 70)) (Fin (- 72))
     \<and> np_mean (final_db [Fin (- 65), Fin (- 72)]) = Fin (- 68.5)
     \<and> np_mean (filter (fl_lt (Fin (- 70))) (final_db [Fin (- 65), Fin (- 72)])) = Fin (- 65)"
    by (simp add: final_db_def relative_threshold_def valid_db_def np_mean_def np_sum_def fl_sub_def)
  then show ?thesis using quiet_frames quiet_frames_db by blast
qed

subsection \<open>Buffers of about one block\<close>

text \<open>
  One block is \<open>int(0.4 * sr)\<close> samples. When 5 divides the sample rate (44100, 48000,
  22050, ...) this is \<open>0.4 * sr\<close> itself; otherwise the fraction is cut off, and a buffer
  of exactly one block is not shorter than a block: it takes the framed path. At sample
  rate 4 a block is one sample and the hop is 0, so that \<open>frame\<close> raises on a buffer of
  one sample and the result is \<open>-70.0\<close>, while the whole-signal fallback of a sample of
  amplitude 1 lies above \<open>-70\<close>.
\<close>

lemma block_length_multiple_of_5:
  assumes "0 \<le> sr" and "5 dvd sr"
  shows "int n < block_length sr \<longleftrightarrow> real n < 0.4 * real_of_int sr"
proof -
  obtain k where k: "sr = 5 * k" using assms(2) by (auto simp: dvd_def)
  have "0.4 * real_of_int sr = real_of_int (2 * k)" by (simp add: k)
  moreover have "0 \<le> k" using assms(1) k by simp
  ultimately have "block_length sr = 2 * k"
    unfolding block_length_def py_int_def by (simp only: floor_of_int) simp
  moreover have "real n < real_of_int (2 * k) \<longleftrightarrow> int n < 2 * k"
    by linarith
  ultimately show ?thesis unfolding \<open>0.4 * real_of_int sr = real_of_int (2 * k)\<close>
    by simp
qed

lemma calculate_lufs_fractional_block: "calculate_lufs [Fin 1] 4 = Fin (- 70)"
  by (simp add: calculate_lufs_def calculate_lufs_try_def block_length_def hop_length_def
      py_int_def frame_def)

lemma spec_whole_signal_unit: "spec_whole_signal_loudness [Fin 1] \<noteq> Fin (- 70)"
proof -
  have "0 < log 10 (100000001 / 100000000 :: real)" by simp
  then have "0 < 60 + 20 * log 10 (100000001 / 100000000 :: real)" by linarith
  then show ?thesis
    by (auto simp: spec_whole_signal_loudness_def np_sum_def fl_sub_def clamp_def Let_def
        split: if_splits)
qed

text \<open>
  The fallback of two samples of opposite sign and equal magnitude \<open>c\<close>: the RMS is
  \<open>c\<close>. With \<open>c = 1 - 1e-8\<close> the dB value is 0 and the loudness \<open>-10\<close>.
\<close>

lemma spec_whole_signal_pair:
  assumes "0 < c"
  shows "spec_whole_signal_loudness [Fin c, Fin (- c)]
           = clamp (Fin (- 70)) (Fin 0) (Fin (20 * log 10 (c + 1 / 100000000) - 10))"
proof -
  have "sqrt ((c * c + c * c) / 2) = sqrt (c * c)" by simp
  also have "\<dots> = c" using assms by simp
  finally have "sqrt ((c * c + c * c) / 2) = c" .
  then show ?thesis
    using assms by (simp add: spec_whole_signal_loudness_def np_sum_def fl_sub_def)
qed

lemma spec_whole_signal_minus_10:
  "spec_whole_signal_loudness [Fin (99999999 / 100000000), Fin (- (99999999 / 100000000))]
     = Fin (- 10)"
  unfolding spec_whole_signal_pair[of "99999999 / 100000000", simplified]
  by (simp add: clamp_def)

subsection \<open>The claims about the loudness estimator\<close>



text \<open>
  Claim C5 at a buffer of one NaN sample (sample rate 44100): the whole-signal path
  returns NaN, which is not in \<open>[-70, 0]\<close>.
\<close>

theorem calculate_lufs_nan_not_in_range:
  "calculate_lufs [NaN] 44100 = NaN
   \<and> \<not> (\<exists>r. calculate_lufs [NaN] 44100 = Fin r \<and> - 70 \<le> r \<and> r \<le> 0)"
  using calculate_lufs_nan_sample by simp

text \<open>
  Apart from NaN samples the contract of the loudness estimator holds: a buffer without
  NaN gives a value in \<open>[-70, 0]\<close>, and an empty buffer, a non-positive sample rate or an
  all-zero buffer give \<open>-70.0\<close>.
\<close>

lemma calculate_lufs_contract_without_nan:
  "((\<forall>x\<in>set y. \<not> is_nan x) \<longrightarrow> (\<exists>r. calculate_lufs y sr = Fin r \<and> - 70 \<le> r \<and> r \<le> 0))
   \<and> calculate_lufs [] sr = Fin (- 70)
   \<and> (sr \<le> 0 \<longrightarrow> calculate_lufs y sr = Fin (- 70))
   \<and> ((\<forall>x\<in>set y. x = Fin 0) \<longrightarrow> calculate_lufs y sr = Fin (- 70))"
  using calculate_lufs_range calculate_lufs_empty calculate_lufs_nonpos_rate calculate_lufs_silence
  by blast

text \<open>
  Claim C6, as stated, fails: at sample rate 4 a buffer of one sample of amplitude 1 is
  shorter than \<open>0.4 * 4 = 1.6\<close> samples, yet \<open>calculate_lufs\<close> does not take the
  whole-signal fallback (a block is \<open>int(1.6) = 1\<close> sample, the hop is 0 and \<open>frame\<close>
  raises): it returns \<open>-70.0\<close>, which is not the value of the fallback.
\<close>

theorem calculate_lufs_fraction_of_a_block:
  "real (length [Fin 1]) < 0.4 * real_of_int 4
   \<and> calculate_lufs [Fin 1] 4 = Fin (- 70)
   \<and> spec_whole_signal_loudness [Fin 1] \<noteq> Fin (- 70)"
  using calculate_lufs_fractional_block spec_whole_signal_unit by simp

text \<open>
  Claim C6, amended. For a non-empty buffer without NaN samples that is shorter than one
  block of \<open>int(0.4 * sr)\<close> samples, \<open>calculate_lufs\<close> returns the whole-signal fallback of
  the specification: the dB value of the RMS of all samples, minus 10, clamped to
  \<open>[-70, 0]\<close>; the value lies in that range.
\<close>

theorem calculate_lufs_whole_signal_fallback:
  assumes "y \<noteq> []" and "\<forall>x\<in>set y. \<not> is_nan x" and "int (length y) < block_length sr"
  shows "calculate_lufs y sr = spec_whole_signal_loudness y
         \<and> (\<exists>r. calculate_lufs y sr = Fin r \<and> - 70 \<le> r \<and> r \<le> 0)"
proof (intro conjI)
  show "calculate_lufs y sr = spec_whole_signal_loudness y"
    by (rule calculate_lufs_short[OF assms])
  show "\<exists>r. calculate_lufs y sr = Fin r \<and> - 70 \<le> r \<and> r \<le> 0"
    by (rule calculate_lufs_range[OF assms(2)])
qed

theorem calculate_lufs_whole_signal_fallback_witness:
  "calculate_lufs [Fin (99999999 / 100000000), Fin (- (99999999 / 100000000))] 44100 = Fin (- 10)"
  using calculate_lufs_whole_signal_fallback
          [of "[Fin (99999999 / 100000000), Fin (- (99999999 / 100000000))]" 44100]
        spec_whole_signal_minus_10
  by (simp add: block_length_44100 is_nan_def)

end
